theory Spec2Isabelle
  imports Complex_Main
begin

section \<open>Data model (models/index.js)\<close>

text \<open>
  The two Mongoose collections. Dates are milliseconds since the epoch (\<open>int\<close>); a field
  of the schema without a default (\<open>markedAt\<close>, \<open>deleteReason\<close>, \<open>senderFingerprint\<close>)
  is an option, \<open>None\<close> when the document does not have it. The user's \<open>id\<close> field is
  called \<open>uid\<close> here, the message's \<open>_id\<close> is \<open>mid\<close>. Mongoose's own bookkeeping fields
  (\<open>updatedAt\<close>, \<open>__v\<close>) are not modelled.
\<close>

record user =
  uid :: string
  createdAt :: int
  lastActive :: int
  markedForDeletion :: bool
  markedAt :: "int option"
  deleteReason :: "string option"

record message =
  mid :: nat
  senderId :: string
  recipientId :: string
  content :: string
  timestamp :: int
  isRead :: bool
  senderFingerprint :: "string option"

record db =
  users :: "user list"
  messages :: "message list"

text \<open>A thrown exception is a value of \<open>exn\<close>.\<close>

datatype exn =
    UnableToGenerate | InvalidIdFormat | IdAlreadyTaken | ValidationError | DuplicateKey
  | MongoError | TypeError

text \<open>
  The error codes the routes answer with (the \<open>code\<close> field of the response).
  \<open>UNHANDLED e\<close> is not a response: the handler throws \<open>e\<close> out of its own
  \<open>catch\<close> block, so it sends no response at all.
\<close>

datatype error =
    INVALID_ID_FORMAT
  | USER_NOT_FOUND
  | SERVICE_UNAVAILABLE
  | GENERATION_ERROR
  | INVALID_REQUEST
  | INVALID_ID
  | INVALID_RECIPIENT
  | INVALID_MESSAGE string
  | SENDER_NOT_FOUND
  | RECIPIENT_NOT_FOUND
  | PROCESS_ERROR
  | DELETE_ERROR
  | UNHANDLED exn

section \<open>The store: the Mongoose operations the code calls\<close>

text \<open>
  A collection is the list of its documents in insertion order. \<open>findOne\<close> answers the
  first document that matches, \<open>deleteOne\<close> removes the first match, \<open>deleteMany\<close> and
  \<open>updateMany\<close> act on every match, \<open>countDocuments\<close> counts the matches.
\<close>

definition findOne :: "('a \<Rightarrow> bool) \<Rightarrow> 'a list \<Rightarrow> 'a option" where
  "findOne p xs = find p xs"

fun update_first :: "('a \<Rightarrow> bool) \<Rightarrow> ('a \<Rightarrow> 'a) \<Rightarrow> 'a list \<Rightarrow> 'a list" where
  "update_first p f [] = []"
| "update_first p f (x # xs) = (if p x then f x # xs else x # update_first p f xs)"

definition findOneAndUpdate ::
  "('a \<Rightarrow> bool) \<Rightarrow> ('a \<Rightarrow> 'a) \<Rightarrow> 'a list \<Rightarrow> 'a option \<times> 'a list" where
  \<comment> \<open>with \<open>{new: true}\<close>: the document after the update, or null\<close>
  "findOneAndUpdate p f xs =
     (case find p xs of
        None \<Rightarrow> (None, xs)
      | Some x \<Rightarrow> (Some (f x), update_first p f xs))"

fun deleteOne :: "('a \<Rightarrow> bool) \<Rightarrow> 'a list \<Rightarrow> 'a list" where
  "deleteOne p [] = []"
| "deleteOne p (x # xs) = (if p x then xs else x # deleteOne p xs)"

definition deleteMany :: "('a \<Rightarrow> bool) \<Rightarrow> 'a list \<Rightarrow> nat \<times> 'a list" where
  \<comment> \<open>the \<open>deletedCount\<close> and the collection left\<close>
  "deleteMany p xs = (length (filter p xs), filter (\<lambda>x. \<not> p x) xs)"

definition updateMany :: "('a \<Rightarrow> bool) \<Rightarrow> ('a \<Rightarrow> 'a) \<Rightarrow> 'a list \<Rightarrow> 'a list" where
  "updateMany p f xs = map (\<lambda>x. if p x then f x else x) xs"

definition countDocuments :: "('a \<Rightarrow> bool) \<Rightarrow> 'a list \<Rightarrow> nat" where
  "countDocuments p xs = length (filter p xs)"

definition user_by_id :: "string \<Rightarrow> user \<Rightarrow> bool" where
  \<comment> \<open>the filter \<open>{ id: userId }\<close>\<close>
  "user_by_id i u = (uid u = i)"

definition involves :: "string \<Rightarrow> message \<Rightarrow> bool" where
  \<comment> \<open>the filter \<open>{ $or: [{ senderId: userId }, { recipientId: userId }] }\<close>\<close>
  "involves i m = (senderId m = i \<or> recipientId m = i)"

section \<open>Identity codes (utils/helpers.js, middleware/index.js)\<close>

definition is_digit :: "char \<Rightarrow> bool" where
  \<comment> \<open>the regular expression class \<open>\d\<close>: the ten ASCII digits\<close>
  "is_digit c = (c \<in> set ''0123456789'')"

definition isValidId :: "string \<Rightarrow> bool" where
  \<comment> \<open>\<open>/^\d{6}$/.test(id)\<close>\<close>
  "isValidId i = (length i = 6 \<and> list_all is_digit i)"

definition validateUserId :: "string \<Rightarrow> bool" where
  \<comment> \<open>the middleware lets the request through when \<open>!(!id || !/^\d{6}$/.test(id))\<close>\<close>
  "validateUserId i = (\<not> (i = [] \<or> \<not> (length i = 6 \<and> list_all is_digit i)))"

definition guarded ::
  "string \<Rightarrow> (db \<Rightarrow> (error + 'r) \<times> db) \<Rightarrow> db \<Rightarrow> (error + 'r) \<times> db" where
  \<comment> \<open>a route behind \<open>validateUserId\<close>: status 400 and no call of the handler
      when the id in the path is malformed\<close>
  "guarded i handler d = (if validateUserId i then handler d else (Inl INVALID_ID_FORMAT, d))"

section \<open>DELETE /api/users/:userId (routes/api.js)\<close>

text \<open>
  The request body as the handler reads it. \<open>b_immediate\<close> is \<open>None\<close> when
  \<open>req.body.immediate\<close> is undefined (or there is no body) and otherwise the truth
  value JavaScript gives it; \<open>b_reason\<close> is \<open>req.body.reason\<close>; \<open>b_get\<close> is what
  \<open>req.body.get\<close> is: missing or falsy, truthy but not a function (the JSON body
  \<open>{"get": 1}\<close>, the form field \<open>get=1\<close>), or a function, with what it answers for
  \<open>"immediate"\<close> and for \<open>"reason"\<close> (form data of a beacon). Calling what is not a
  function throws a \<open>TypeError\<close>.
\<close>

datatype body_get =
    GetAbsent
  | GetNotCallable
  | GetFunction "string option" "string option"

record delete_body =
  b_immediate :: "bool option"
  b_reason :: "string option"
  b_get :: body_get

definition or_default :: "string option \<Rightarrow> string \<Rightarrow> string" where
  \<comment> \<open>JavaScript's \<open>x || d\<close> on a string that may be undefined: the empty string is falsy\<close>
  "or_default x dflt = (case x of None \<Rightarrow> dflt | Some s \<Rightarrow> if s = [] then dflt else s)"

definition read_body :: "delete_body \<Rightarrow> exn + bool \<times> string" where
  \<comment> \<open>the first statements of the \<open>try\<close> block: \<open>immediate\<close> and \<open>reason\<close>, or the
      exception of \<open>req.body.get("immediate")\<close>\<close>
  "read_body body =
     (case b_immediate body of
        Some i \<Rightarrow> Inr (i, or_default (b_reason body) ''manual'')
      | None \<Rightarrow>
          (case b_get body of
             GetAbsent \<Rightarrow> Inr (False, ''manual'')
           | GetNotCallable \<Rightarrow> Inl TypeError
           | GetFunction i r \<Rightarrow> Inr (i = Some ''true'', or_default r ''beacon'')))"

record delete_response =
  dr_userId :: string
  deletedMessages :: nat
  dr_message :: string
  wasDeleted :: bool
  dr_reason :: string

text \<open>
  The two shapes of a successful answer: the cleanup report, and the answer of the
  \<open>catch\<close> block to a beacon (\<open>Cleanup request received with errors\<close>, with the
  exception caught).
\<close>

datatype delete_answer = Report delete_response | ReceivedWithErrors exn

definition mark_user :: "int \<Rightarrow> string \<Rightarrow> user \<Rightarrow> user" where
  \<comment> \<open>the update \<open>{ markedForDeletion: true, markedAt: new Date(), deleteReason: reason }\<close>\<close>
  "mark_user now r u = u\<lparr>markedForDeletion := True, markedAt := Some now, deleteReason := Some r\<rparr>"

definition delete_catch :: "delete_body \<Rightarrow> exn \<Rightarrow> error + delete_answer" where
  \<comment> \<open>the \<open>catch\<close> block: \<open>req.body && req.body.get && req.body.get("reason") === "beacon"\<close>
      is evaluated first, and calls \<open>req.body.get\<close> whenever it is truthy\<close>
  "delete_catch body e =
     (case b_get body of
        GetAbsent \<Rightarrow> Inl DELETE_ERROR
      | GetNotCallable \<Rightarrow> Inl (UNHANDLED TypeError)
      | GetFunction i r \<Rightarrow>
          if r = Some ''beacon'' then Inr (ReceivedWithErrors e) else Inl DELETE_ERROR)"

definition delete_user ::
  "int \<Rightarrow> string \<Rightarrow> delete_body \<Rightarrow> db \<Rightarrow> (error + delete_answer) \<times> db" where
  "delete_user now userId body d =
     (case read_body body of
        Inl e \<Rightarrow> (delete_catch body e, d)
      | Inr (immediate, reason) \<Rightarrow>
          (case findOne (user_by_id userId) (users d) of
             None \<Rightarrow>
               (Inr (Report \<lparr>dr_userId = userId, deletedMessages = 0,
                       dr_message = ''User already deleted or never existed'',
                       wasDeleted = False, dr_reason = reason\<rparr>), d)
           | Some u \<Rightarrow>
               if immediate then
                 (let (deleted, ms) = deleteMany (involves userId) (messages d) in
                  (Inr (Report \<lparr>dr_userId = userId, deletedMessages = deleted,
                          dr_message = ''User and associated data deleted immediately'',
                          wasDeleted = True, dr_reason = reason\<rparr>),
                   \<lparr>users = deleteOne (user_by_id userId) (users d), messages = ms\<rparr>))
               else
                 (Inr (Report \<lparr>dr_userId = userId, deletedMessages = 0,
                         dr_message = ''User marked for deletion'',
                         wasDeleted = False, dr_reason = reason\<rparr>),
                  d\<lparr>users := snd (findOneAndUpdate (user_by_id userId) (mark_user now reason)
                                     (users d))\<rparr>)))"

definition delete_user_route ::
  "int \<Rightarrow> string \<Rightarrow> delete_body \<Rightarrow> db \<Rightarrow> (error + delete_answer) \<times> db" where
  "delete_user_route now userId body d = guarded userId (delete_user now userId body) d"

section \<open>PUT /api/users/:userId/heartbeat (routes/api.js)\<close>

record heartbeat_response =
  hb_userId :: string
  hb_lastActive :: int

definition touch :: "int \<Rightarrow> user \<Rightarrow> user" where
  \<comment> \<open>the update \<open>{ lastActive: new Date() }\<close>\<close>
  "touch now u = u\<lparr>lastActive := now\<rparr>"

definition heartbeat :: "int \<Rightarrow> string \<Rightarrow> db \<Rightarrow> (error + heartbeat_response) \<times> db" where
  "heartbeat now userId d =
     (case findOneAndUpdate (user_by_id userId) (touch now) (users d) of
        (None, us) \<Rightarrow> (Inl USER_NOT_FOUND, d\<lparr>users := us\<rparr>)
      | (Some u, us) \<Rightarrow>
          (Inr \<lparr>hb_userId = userId, hb_lastActive = lastActive u\<rparr>, d\<lparr>users := us\<rparr>))"

definition heartbeat_route :: "int \<Rightarrow> string \<Rightarrow> db \<Rightarrow> (error + heartbeat_response) \<times> db" where
  "heartbeat_route now userId d = guarded userId (heartbeat now userId) d"

section \<open>PUT /api/messages/:userId/read (routes/api.js, the revision with mark-as-read)\<close>

text \<open>
  \<open>messageIds\<close> is \<open>Some ids\<close> when the body holds an array, \<open>None\<close> when the field is
  missing or not an array. The schema's \<open>timestamps: true\<close> makes Mongoose stamp every
  matched document, so \<open>modifiedCount\<close> is the number of matched documents.
\<close>

definition updateQuery :: "string \<Rightarrow> nat list option \<Rightarrow> message \<Rightarrow> bool" where
  "updateQuery userId messageIds m =
     (recipientId m = userId \<and>
      (case messageIds of
         None \<Rightarrow> True
       | Some ids \<Rightarrow> if length ids > 0 then mid m \<in> set ids else True))"

definition set_read :: "message \<Rightarrow> message" where
  \<comment> \<open>the update \<open>{ isRead: true }\<close>\<close>
  "set_read m = m\<lparr>isRead := True\<rparr>"

definition mark_read :: "string \<Rightarrow> nat list option \<Rightarrow> db \<Rightarrow> (error + nat) \<times> db" where
  "mark_read userId messageIds d =
     (case findOne (user_by_id userId) (users d) of
        None \<Rightarrow> (Inl USER_NOT_FOUND, d)
      | Some u \<Rightarrow>
          (Inr (countDocuments (updateQuery userId messageIds) (messages d)),
           d\<lparr>messages := updateMany (updateQuery userId messageIds) set_read (messages d)\<rparr>))"

definition mark_read_route :: "string \<Rightarrow> nat list option \<Rightarrow> db \<Rightarrow> (error + nat) \<times> db" where
  "mark_read_route userId messageIds d = guarded userId (mark_read userId messageIds) d"

section \<open>The periodic sweep: cleanupInactiveUsers (server.js, the revision with soft deletion)\<close>

text \<open>
  The function reads the clock three times: \<open>t1\<close> for \<open>twoMinutesAgo\<close>, \<open>t2\<close> for
  \<open>fifteenMinutesAgo\<close>, \<open>t3\<close> for the \<open>markedAt\<close> it writes. A query \<open>{ $lt: date }\<close>
  does not match a document without the field. The result carries the two lists the
  function logs (\<open>softDeletedUsers\<close>, \<open>inactiveUsers\<close>) and the store it leaves.
\<close>

definition past_grace :: "int \<Rightarrow> user \<Rightarrow> bool" where
  \<comment> \<open>the filter \<open>{ markedForDeletion: true, markedAt: { $lt: twoMinutesAgo } }\<close>\<close>
  "past_grace twoMinutesAgo u =
     (markedForDeletion u = True \<and>
      (case markedAt u of None \<Rightarrow> False | Some t \<Rightarrow> t < twoMinutesAgo))"

definition inactive :: "int \<Rightarrow> user \<Rightarrow> bool" where
  \<comment> \<open>the filter \<open>{ lastActive: { $lt: fifteenMinutesAgo }, markedForDeletion: { $ne: true } }\<close>\<close>
  "inactive fifteenMinutesAgo u = (lastActive u < fifteenMinutesAgo \<and> markedForDeletion u \<noteq> True)"

definition purge_user :: "user \<Rightarrow> db \<Rightarrow> db" where
  \<comment> \<open>one round of the loop over \<open>softDeletedUsers\<close>\<close>
  "purge_user u d =
     \<lparr>users = deleteOne (user_by_id (uid u)) (users d),
      messages = snd (deleteMany (involves (uid u)) (messages d))\<rparr>"

definition cleanupInactiveUsers ::
  "int \<Rightarrow> int \<Rightarrow> int \<Rightarrow> db \<Rightarrow> user list \<times> user list \<times> db" where
  "cleanupInactiveUsers t1 t2 t3 d =
     (let twoMinutesAgo = t1 - 2 * 60 * 1000;
          softDeletedUsers = filter (past_grace twoMinutesAgo) (users d);
          d1 = fold purge_user softDeletedUsers d;
          fifteenMinutesAgo = t2 - 15 * 60 * 1000;
          inactiveUsers = filter (inactive fifteenMinutesAgo) (users d1);
          d2 = (if length inactiveUsers > 0
                then d1\<lparr>users := updateMany (\<lambda>u. uid u \<in> set (map uid inactiveUsers))
                                   (mark_user t3 ''inactivity'') (users d1)\<rparr>
                else d1)
      in (softDeletedUsers, inactiveUsers, d2))"

section \<open>Allocation: generateRandomId, generateUniqueId, GET /api/generate-id\<close>

text \<open>
  \<open>Math.random()\<close> is a parameter: \<open>rnd i\<close> is what the \<open>i\<close>-th call answers, a number
  of \<open>[0, 1)\<close>, taken as a real (the rounding of doubles is not modelled).
\<close>

definition digit_char :: "nat \<Rightarrow> char" where
  "digit_char n = ''0123456789'' ! (n mod 10)"

fun digits :: "nat \<Rightarrow> string" where
  "digits n = (if n < 10 then [digit_char n] else digits (n div 10) @ [digit_char (n mod 10)])"

declare digits.simps [simp del]

definition toString :: "int \<Rightarrow> string" where
  \<comment> \<open>\<open>Number.prototype.toString\<close> on an integer\<close>
  "toString n = (if n < 0 then CHR ''-'' # digits (nat (- n)) else digits (nat n))"

definition generateRandomId :: "real \<Rightarrow> string" where
  \<comment> \<open>\<open>Math.floor(100000 + Math.random() * 900000).toString()\<close>\<close>
  "generateRandomId r = toString \<lfloor>100000 + r * 900000\<rfloor>"

function generateUniqueId_from :: "(nat \<Rightarrow> real) \<Rightarrow> nat \<Rightarrow> user list \<Rightarrow> nat \<Rightarrow> exn + string" where
  \<comment> \<open>the \<open>for\<close> loop, entered with the counter \<open>i\<close>\<close>
  "generateUniqueId_from rnd maxAttempts us i =
     (if i < maxAttempts then
        (let newId = generateRandomId (rnd i) in
         case findOne (user_by_id newId) us of
           None \<Rightarrow> Inr newId
         | Some existingUser \<Rightarrow> generateUniqueId_from rnd maxAttempts us (i + 1))
      else Inl UnableToGenerate)"
  by pat_completeness auto
termination
  by (relation "measure (\<lambda>(rnd, maxAttempts, us, i). maxAttempts - i)") auto

declare generateUniqueId_from.simps [simp del]

definition generateUniqueId :: "(nat \<Rightarrow> real) \<Rightarrow> user list \<Rightarrow> exn + string" where
  \<comment> \<open>called with the default \<open>maxAttempts = 10\<close>\<close>
  "generateUniqueId rnd us = generateUniqueId_from rnd 10 us 0"

definition new_user :: "string \<Rightarrow> int \<Rightarrow> user" where
  \<comment> \<open>\<open>new User({ id })\<close> with the schema's defaults\<close>
  "new_user i now =
     \<lparr>uid = i, createdAt = now, lastActive = now, markedForDeletion = False,
      markedAt = None, deleteReason = None\<rparr>"

definition save_user :: "user \<Rightarrow> user list \<Rightarrow> exn + user list" where
  \<comment> \<open>\<open>user.save()\<close>: the schema's \<open>match\<close> on \<open>id\<close>, then the unique index\<close>
  "save_user u us =
     (if \<not> isValidId (uid u) then Inl ValidationError
      else if findOne (user_by_id (uid u)) us \<noteq> None then Inl DuplicateKey
      else Inr (us @ [u]))"

definition generate_id_route :: "(nat \<Rightarrow> real) \<Rightarrow> int \<Rightarrow> db \<Rightarrow> (error + string) \<times> db" where
  "generate_id_route rnd now d =
     (case generateUniqueId rnd (users d) of
        Inl e \<Rightarrow> (if e = UnableToGenerate then (Inl SERVICE_UNAVAILABLE, d)
                  else (Inl GENERATION_ERROR, d))
      | Inr newId \<Rightarrow>
          (case save_user (new_user newId now) (users d) of
             Inl e \<Rightarrow> (if e = UnableToGenerate then (Inl SERVICE_UNAVAILABLE, d)
                       else (Inl GENERATION_ERROR, d))
           | Inr us \<Rightarrow> (Inr newId, d\<lparr>users := us\<rparr>)))"

section \<open>Availability: isIdAvailable, GET /api/check-id/:id\<close>

definition isIdAvailable :: "string \<Rightarrow> user list \<Rightarrow> bool" where
  "isIdAvailable i us =
     (if \<not> isValidId i then False
      else (case findOne (user_by_id i) us of None \<Rightarrow> True | Some existingUser \<Rightarrow> False))"

record check_response =
  available :: bool
  cr_id :: string

definition check_id :: "string \<Rightarrow> db \<Rightarrow> (error + check_response) \<times> db" where
  "check_id i d = (Inr \<lparr>available = isIdAvailable i (users d), cr_id = i\<rparr>, d)"

definition check_id_route :: "string \<Rightarrow> db \<Rightarrow> (error + check_response) \<times> db" where
  "check_id_route i d = guarded i (check_id i) d"

section \<open>GET /api/messages/:recipientId (routes/api.js)\<close>

text \<open>
  The query parameters: \<open>page\<close> and \<open>limit\<close> are \<open>None\<close> when the request does not
  give them (the handler's defaults 1 and 20 apply) and otherwise hold the integer that
  \<open>parseInt\<close> reads; a parameter that \<open>parseInt\<close> cannot read (\<open>NaN\<close>) is outside the
  model. \<open>unread\<close> is the raw string, if any.

  The find of the store: the matches sorted by \<open>timestamp\<close> descending (documents of
  equal timestamp in insertion order), \<open>skip\<close> documents dropped, then \<open>limit\<close>
  documents kept, without the field \<open>senderFingerprint\<close>. MongoDB refuses a negative
  skip, reads the limit 0 as no limit and a negative limit as its absolute value.
\<close>

datatype jsnum = Num int | NaN | Infinity | NegInfinity

definition ceil_div :: "int \<Rightarrow> int \<Rightarrow> jsnum" where
  \<comment> \<open>\<open>Math.ceil(a / b)\<close> on integers\<close>
  "ceil_div a b =
     (if b = 0 then (if a = 0 then NaN else if a > 0 then Infinity else NegInfinity)
      else Num \<lceil>real_of_int a / real_of_int b\<rceil>)"

definition strip_fingerprint :: "message \<Rightarrow> message" where
  \<comment> \<open>\<open>.select("-senderFingerprint")\<close>\<close>
  "strip_fingerprint m = m\<lparr>senderFingerprint := None\<rparr>"

definition find_page :: "(message \<Rightarrow> bool) \<Rightarrow> int \<Rightarrow> int \<Rightarrow> message list \<Rightarrow> exn + message list" where
  \<comment> \<open>\<open>Message.find(query).sort({ timestamp: -1 }).skip(skip).limit(limit)
      .select("-senderFingerprint").lean()\<close>\<close>
  "find_page q skip limit ms =
     (if skip < 0 then Inl MongoError
      else
        (let sorted = sort_key (\<lambda>m. - timestamp m) (filter q ms);
             skipped = drop (nat skip) sorted;
             page = (if limit = 0 then skipped else take (nat \<bar>limit\<bar>) skipped)
         in Inr (map strip_fingerprint page)))"

definition inbox_query :: "string \<Rightarrow> string option \<Rightarrow> message \<Rightarrow> bool" where
  \<comment> \<open>\<open>{ recipientId }\<close>, with \<open>isRead: false\<close> added when \<open>unread === "true"\<close>\<close>
  "inbox_query r unread m =
     (recipientId m = r \<and> (if unread = Some ''true'' then isRead m = False else True))"

definition unread_query :: "string \<Rightarrow> message \<Rightarrow> bool" where
  \<comment> \<open>\<open>{ recipientId, isRead: false }\<close>\<close>
  "unread_query r m = (recipientId m = r \<and> isRead m = False)"

record pagination =
  currentPage :: int
  totalPages :: jsnum
  totalMessages :: int
  hasMore :: bool
  pg_limit :: int

record receive_response =
  rr_messages :: "message list"
  rr_pagination :: pagination
  unreadCount :: "nat option"
  deletedCount :: nat

definition get_messages ::
  "int \<Rightarrow> string \<Rightarrow> int option \<Rightarrow> int option \<Rightarrow> string option \<Rightarrow> db
   \<Rightarrow> (error + receive_response) \<times> db" where
  "get_messages now r q_page q_limit unread d =
     (let page = (case q_page of None \<Rightarrow> 1 | Some n \<Rightarrow> n);
          limit = (case q_limit of None \<Rightarrow> 20 | Some n \<Rightarrow> n)
      in
      case findOne (user_by_id r) (users d) of
        None \<Rightarrow> (Inl USER_NOT_FOUND, d)
      | Some recipient \<Rightarrow>
          (let skip = (page - 1) * limit;
               query = inbox_query r unread
           in
           case find_page query skip limit (messages d) of
             Inl e \<Rightarrow> (Inl PROCESS_ERROR, d)
           | Inr msgs \<Rightarrow>
               (let total = countDocuments query (messages d);
                    messageIds = map mid msgs;
                    us = snd (findOneAndUpdate (user_by_id r) (touch now) (users d));
                    ms = snd (deleteMany (\<lambda>m. mid m \<in> set messageIds) (messages d));
                    remainingMessages = int total - int (length msgs)
                in
                (Inr \<lparr>rr_messages = msgs,
                      rr_pagination =
                        \<lparr>currentPage = page,
                         totalPages = ceil_div remainingMessages limit,
                         totalMessages = remainingMessages,
                         hasMore = (skip + int (length msgs) < int total),
                         pg_limit = limit\<rparr>,
                      unreadCount =
                        (if unread \<noteq> Some ''true''
                         then Some (countDocuments (unread_query r) ms) else None),
                      deletedCount = length msgs\<rparr>,
                 \<lparr>users = us, messages = ms\<rparr>))))"

definition get_messages_route ::
  "int \<Rightarrow> string \<Rightarrow> int option \<Rightarrow> int option \<Rightarrow> string option \<Rightarrow> db
   \<Rightarrow> (error + receive_response) \<times> db" where
  "get_messages_route now r q_page q_limit unread d =
     guarded r (get_messages now r q_page q_limit unread) d"

definition parsePagination :: "int option \<Rightarrow> int option \<Rightarrow> int \<times> int \<times> int" where
  \<comment> \<open>the helper of utils/helpers.js (the revision that has it): \<open>x || d\<close> takes the
      default for \<open>NaN\<close> and for 0\<close>
  "parsePagination q_page q_limit =
     (let page = max 1 (case q_page of None \<Rightarrow> 1 | Some n \<Rightarrow> if n = 0 then 1 else n);
          limit = min 50 (max 1 (case q_limit of None \<Rightarrow> 20 | Some n \<Rightarrow> if n = 0 then 20 else n));
          skip = (page - 1) * limit
      in (page, limit, skip))"

section \<open>Message content: validateMessage, sanitizeMessage (utils/helpers.js)\<close>

text \<open>
  A string is the list of its code units; \<open>char\<close> has the code units below 256. The
  white space of \<open>trim\<close> and of \<open>\s\<close> in that range: tab, line feed, vertical tab, form
  feed, carriage return, space, no-break space. The dot of a regular expression matches
  everything but a line terminator.
\<close>

definition is_space :: "char \<Rightarrow> bool" where
  "is_space c = (c \<in> set [CHR 0x09, CHR 0x0A, CHR 0x0B, CHR 0x0C, CHR 0x0D, CHR 0x20, CHR 0xA0])"

definition is_line_terminator :: "char \<Rightarrow> bool" where
  "is_line_terminator c = (c \<in> set [CHR 0x0A, CHR 0x0D])"

definition js_trim :: "string \<Rightarrow> string" where
  \<comment> \<open>\<open>String.prototype.trim\<close>\<close>
  "js_trim s = rev (dropWhile is_space (rev (dropWhile is_space s)))"

fun repeated_chars :: "string \<Rightarrow> bool" where
  \<comment> \<open>\<open>/(.)\1{10,}/.test(s)\<close>: a character followed by ten or more copies of itself\<close>
  "repeated_chars [] = False"
| "repeated_chars (c # cs) =
     ((\<not> is_line_terminator c \<and> length (takeWhile (\<lambda>x. x = c) cs) \<ge> 10) \<or> repeated_chars cs)"

definition after_scheme :: "string \<Rightarrow> bool" where
  \<comment> \<open>\<open>:\/\/[^\s]+\<close> at the head of the string\<close>
  "after_scheme s =
     (take 3 s = ''://'' \<and> (case drop 3 s of [] \<Rightarrow> False | c # cs \<Rightarrow> \<not> is_space c))"

definition url_here :: "string \<Rightarrow> bool" where
  \<comment> \<open>\<open>https?:\/\/[^\s]+\<close> with the flag \<open>i\<close>, at the head of the string\<close>
  "url_here s =
     (case s of
        h # t1 # t2 # p # rest \<Rightarrow>
          h \<in> set ''hH'' \<and> t1 \<in> set ''tT'' \<and> t2 \<in> set ''tT'' \<and> p \<in> set ''pP'' \<and>
          ((case rest of [] \<Rightarrow> False | c # cs \<Rightarrow> c \<in> set ''sS'' \<and> after_scheme cs)
           \<or> after_scheme rest)
      | _ \<Rightarrow> False)"

fun contains_url :: "string \<Rightarrow> bool" where
  "contains_url [] = False"
| "contains_url (c # cs) = (url_here (c # cs) \<or> contains_url cs)"

definition validateMessage :: "string option \<Rightarrow> string + string" where
  \<comment> \<open>\<open>Inl\<close> the error of \<open>{ valid: false, error }\<close>, \<open>Inr\<close> the content of
      \<open>{ valid: true, content }\<close>\<close>
  "validateMessage input =
     (case input of
        None \<Rightarrow> Inl ''Message content is required''
      | Some c \<Rightarrow>
          if c = [] then Inl ''Message content is required''
          else
            (let trimmed = js_trim c in
             if length trimmed = 0 then Inl ''Message cannot be empty''
             else if length trimmed > 1000 then Inl ''Message too long (max 1000 characters)''
             else if repeated_chars trimmed \<or> contains_url trimmed
               then Inl ''Message appears to be spam''
             else Inr trimmed))"

function collapse_spaces :: "string \<Rightarrow> string" where
  \<comment> \<open>\<open>.replace(/\s+/g, " ")\<close>\<close>
  "collapse_spaces [] = []"
| "collapse_spaces (c # cs) =
     (if is_space c then CHR '' '' # collapse_spaces (dropWhile is_space cs)
      else c # collapse_spaces cs)"
  by pat_completeness auto
termination
  by (relation "measure length") (auto simp: length_dropWhile_le less_Suc_eq_le)

definition sanitizeMessage :: "string \<Rightarrow> string" where
  \<comment> \<open>the helper of utils/helpers.js (the revision that has it), on a string\<close>
  "sanitizeMessage input = take 1000 (collapse_spaces (js_trim input))"

section \<open>POST /api/messages/send (routes/api.js)\<close>

text \<open>
  The fields of the body are \<open>None\<close> when missing. \<open>reqFingerprint\<close> is what
  \<open>createFingerprint(req)\<close> answers (a SHA-256 digest, not modelled). The store assigns
  the new message an \<open>_id\<close> that no message of the collection has. The schema trims the
  content once more when the message is built.
\<close>

definition fresh_id :: "message list \<Rightarrow> nat" where
  "fresh_id ms = Suc (fold max (map mid ms) 0)"

record send_response =
  sr_id :: nat
  sr_timestamp :: int

definition send_message ::
  "int \<Rightarrow> string option \<Rightarrow> string option \<Rightarrow> string option \<Rightarrow> string option \<Rightarrow> string \<Rightarrow> db
   \<Rightarrow> (error + send_response) \<times> db" where
  "send_message now q_sender q_recipient q_content q_fingerprint reqFingerprint d =
     (case (q_sender, q_recipient, q_content) of
        (Some sender, Some recipient, Some c) \<Rightarrow>
          if sender = [] \<or> recipient = [] \<or> c = [] then (Inl INVALID_REQUEST, d)
          else if \<not> isValidId sender \<or> \<not> isValidId recipient then (Inl INVALID_ID, d)
          else if sender = recipient then (Inl INVALID_RECIPIENT, d)
          else
            (case validateMessage (Some c) of
               Inl e \<Rightarrow> (Inl (INVALID_MESSAGE e), d)
             | Inr validContent \<Rightarrow>
                 if findOne (user_by_id sender) (users d) = None then (Inl SENDER_NOT_FOUND, d)
                 else if findOne (user_by_id recipient) (users d) = None
                   then (Inl RECIPIENT_NOT_FOUND, d)
                 else
                   (let msg = \<lparr>mid = fresh_id (messages d), senderId = sender,
                               recipientId = recipient, content = js_trim validContent,
                               timestamp = now, isRead = False,
                               senderFingerprint =
                                 Some (or_default q_fingerprint reqFingerprint)\<rparr>
                    in (Inr \<lparr>sr_id = mid msg, sr_timestamp = timestamp msg\<rparr>,
                        \<lparr>users = snd (findOneAndUpdate (user_by_id recipient) (touch now)
                                        (users d)),
                         messages = messages d @ [msg]\<rparr>)))
      | _ \<Rightarrow> (Inl INVALID_REQUEST, d))"

section \<open>Properties of the store operations\<close>

lemma update_first_frame:
  "(\<And>x. g (f x) = g x) \<Longrightarrow> map g (update_first p f xs) = map g xs"
  by (induction xs) auto

lemma find_update_first:
  "find p xs = Some x \<Longrightarrow> p (f x) \<Longrightarrow> find p (update_first p f xs) = Some (f x)"
  by (induction xs) (auto split: if_splits)

lemma validateUserId_iff: "validateUserId i = isValidId i"
  by (auto simp: validateUserId_def isValidId_def)

text \<open>
  What the DELETE handler does for a \<open>userId\<close> that no user holds, whenever reading
  the body does not throw: it answers success with \<open>deletedMessages = 0\<close> and
  \<open>wasDeleted = False\<close> and leaves the store as it was; for a well-formed \<open>userId\<close>
  the route behind \<open>validateUserId\<close> is the handler.
\<close>

lemma delete_absent_user_readable_body:
  assumes "findOne (user_by_id userId) (users d) = None"
    and "read_body body = Inr (immediate, reason)"
  shows "delete_user now userId body d =
           (Inr (Report \<lparr>dr_userId = userId, deletedMessages = 0,
                   dr_message = ''User already deleted or never existed'',
                   wasDeleted = False, dr_reason = reason\<rparr>), d)"
    and "isValidId userId \<Longrightarrow>
           delete_user_route now userId body d = delete_user now userId body d"
  using assms
  by (simp_all add: delete_user_def delete_user_route_def guarded_def validateUserId_iff)

lemma read_body_throws_iff:
  "(\<exists>e. read_body body = Inl e) \<longleftrightarrow> b_immediate body = None \<and> b_get body = GetNotCallable"
  by (auto simp: read_body_def split: option.splits body_get.splits)

text \<open>
  Claim C4, at a request for which the handler does not answer success: no user holds
  \<open>123456\<close>, and the body is the JSON \<open>{"get": 1}\<close>. Reading the body calls
  \<open>req.body.get\<close>, which is not a function, before the user is looked up; the
  \<open>catch\<close> block calls it again, so the exception leaves the handler and no success
  with \<open>deletedMessages = 0\<close>, \<open>wasDeleted = False\<close> is answered.
\<close>

theorem delete_absent_user_throws:
  "findOne (user_by_id ''123456'') (users \<lparr>users = [], messages = []\<rparr>) = None
   \<and> validateUserId ''123456''
   \<and> delete_user_route 0 ''123456''
         \<lparr>b_immediate = None, b_reason = None, b_get = GetNotCallable\<rparr>
         \<lparr>users = [], messages = []\<rparr>
       = (Inl (UNHANDLED TypeError), \<lparr>users = [], messages = []\<rparr>)"
  by (simp add: findOne_def validateUserId_def is_digit_def delete_user_route_def guarded_def
      delete_user_def read_body_def delete_catch_def)

theorem delete_absent_user_throws_witness:
  "fst (delete_user_route 0 ''123456''
         \<lparr>b_immediate = None, b_reason = None, b_get = GetNotCallable\<rparr>
         \<lparr>users = [], messages = []\<rparr>)
     \<noteq> Inr (Report \<lparr>dr_userId = ''123456'', deletedMessages = 0,
                dr_message = ''User already deleted or never existed'',
                wasDeleted = False, dr_reason = ''manual''\<rparr>)"
  using delete_absent_user_throws by simp

text \<open>
  Claim C9. Heartbeat touches \<open>lastActive\<close> only: when the user exists, the answer
  carries the new \<open>lastActive\<close>, the messages are unchanged, the user found afterwards
  is the old one with \<open>lastActive = now\<close>, and no user's \<open>markedForDeletion\<close>,
  \<open>markedAt\<close> or \<open>deleteReason\<close> (nor any field other than \<open>lastActive\<close>) changes, so a
  marked identity stays marked. When no user holds \<open>userId\<close>, the answer is
  \<open>USER_NOT_FOUND\<close> and the store is unchanged.
\<close>

theorem heartbeat_frame:
  "(findOne (user_by_id userId) (users d) = None \<longrightarrow>
      heartbeat now userId d = (Inl USER_NOT_FOUND, d))
   \<and> (\<forall>u. findOne (user_by_id userId) (users d) = Some u \<longrightarrow>
        (\<exists>d'. heartbeat now userId d =
                 (Inr \<lparr>hb_userId = userId, hb_lastActive = now\<rparr>, d')
          \<and> messages d' = messages d
          \<and> findOne (user_by_id userId) (users d') = Some (u\<lparr>lastActive := now\<rparr>)
          \<and> map (\<lambda>v. v\<lparr>lastActive := 0\<rparr>) (users d') = map (\<lambda>v. v\<lparr>lastActive := 0\<rparr>) (users d)
          \<and> map markedForDeletion (users d') = map markedForDeletion (users d)
          \<and> map markedAt (users d') = map markedAt (users d)
          \<and> map deleteReason (users d') = map deleteReason (users d)))
   \<and> (isValidId userId \<longrightarrow> heartbeat_route now userId d = heartbeat now userId d)"
proof (intro conjI impI allI)
  assume "findOne (user_by_id userId) (users d) = None"
  then show "heartbeat now userId d = (Inl USER_NOT_FOUND, d)"
    by (simp add: heartbeat_def findOneAndUpdate_def findOne_def)
next
  fix u assume h: "findOne (user_by_id userId) (users d) = Some u"
  then have f: "find (user_by_id userId) (users d) = Some u" by (simp add: findOne_def)
  then have pu: "user_by_id userId u" by (auto simp: find_Some_iff)
  let ?d = "d\<lparr>users := update_first (user_by_id userId) (touch now) (users d)\<rparr>"
  have 1: "heartbeat now userId d = (Inr \<lparr>hb_userId = userId, hb_lastActive = now\<rparr>, ?d)"
    using f by (simp add: heartbeat_def findOneAndUpdate_def touch_def)
  have 2: "findOne (user_by_id userId) (users ?d) = Some (u\<lparr>lastActive := now\<rparr>)"
    using find_update_first [OF f, of "touch now"] pu
    by (simp add: findOne_def touch_def user_by_id_def)
  show "\<exists>d'. heartbeat now userId d =
                 (Inr \<lparr>hb_userId = userId, hb_lastActive = now\<rparr>, d')
          \<and> messages d' = messages d
          \<and> findOne (user_by_id userId) (users d') = Some (u\<lparr>lastActive := now\<rparr>)
          \<and> map (\<lambda>v. v\<lparr>lastActive := 0\<rparr>) (users d') = map (\<lambda>v. v\<lparr>lastActive := 0\<rparr>) (users d)
          \<and> map markedForDeletion (users d') = map markedForDeletion (users d)
          \<and> map markedAt (users d') = map markedAt (users d)
          \<and> map deleteReason (users d') = map deleteReason (users d)"
    using 1 2 by (intro exI [of _ ?d]) (simp add: update_first_frame touch_def)
next
  assume "isValidId userId"
  then show "heartbeat_route now userId d = heartbeat now userId d"
    by (simp add: heartbeat_route_def guarded_def validateUserId_iff)
qed


theorem heartbeat_frame_witness:
  "findOne (user_by_id ''123456'')
     (users \<lparr>users = [\<lparr>uid = ''123456'', createdAt = 1, lastActive = 2, markedForDeletion = True,
                         markedAt = Some 3, deleteReason = Some ''manual''\<rparr>], messages = []\<rparr>)
     = Some \<lparr>uid = ''123456'', createdAt = 1, lastActive = 2, markedForDeletion = True,
             markedAt = Some 3, deleteReason = Some ''manual''\<rparr>
   \<and> isValidId ''123456''
   \<and> heartbeat_route 50 ''123456''
       \<lparr>users = [\<lparr>uid = ''123456'', createdAt = 1, lastActive = 2, markedForDeletion = True,
                   markedAt = Some 3, deleteReason = Some ''manual''\<rparr>], messages = []\<rparr>
     = (Inr \<lparr>hb_userId = ''123456'', hb_lastActive = 50\<rparr>,
        \<lparr>users = [\<lparr>uid = ''123456'', createdAt = 1, lastActive = 50, markedForDeletion = True,
                    markedAt = Some 3, deleteReason = Some ''manual''\<rparr>], messages = []\<rparr>)
   \<and> findOne (user_by_id ''654321'') (users \<lparr>users = [], messages = []\<rparr>) = None
   \<and> heartbeat 50 ''654321'' \<lparr>users = [], messages = []\<rparr>
     = (Inl USER_NOT_FOUND, \<lparr>users = [], messages = []\<rparr>)"
proof -
  let ?u = "\<lparr>uid = ''123456'', createdAt = 1, lastActive = 2, markedForDeletion = True,
             markedAt = Some 3, deleteReason = Some ''manual''\<rparr>"
  let ?d = "\<lparr>users = [?u], messages = []\<rparr>"
  let ?e = "\<lparr>users = [], messages = []\<rparr>"
  have a: "findOne (user_by_id ''123456'') (users ?d) = Some ?u"
    by (simp add: findOne_def user_by_id_def)
  have b: "isValidId ''123456''"
    by (simp add: isValidId_def is_digit_def)
  have c: "findOne (user_by_id ''654321'') (users ?e) = None"
    by (simp add: findOne_def)
  from heartbeat_frame [of "''123456''" ?d 50] a b
  obtain d' where r: "heartbeat_route 50 ''123456'' ?d =
        (Inr \<lparr>hb_userId = ''123456'', hb_lastActive = 50\<rparr>, d')"
    by auto
  have d: "heartbeat_route 50 ''123456'' ?d =
        (Inr \<lparr>hb_userId = ''123456'', hb_lastActive = 50\<rparr>,
         \<lparr>users = [?u\<lparr>lastActive := 50\<rparr>], messages = []\<rparr>)"
    using r
    by (simp add: heartbeat_route_def guarded_def validateUserId_def is_digit_def heartbeat_def
        findOneAndUpdate_def user_by_id_def touch_def)
  have e: "heartbeat 50 ''654321'' ?e = (Inl USER_NOT_FOUND, ?e)"
    using heartbeat_frame [of "''654321''" ?e 50] c by simp
  show ?thesis using a b c d e by simp
qed

section \<open>Marking as read and availability\<close>

lemma findOne_None_iff: "findOne (user_by_id i) us = None \<longleftrightarrow> i \<notin> set (map uid us)"
  by (auto simp: findOne_def find_None_iff user_by_id_def)

text \<open>
  Claim C10. Marking as read touches the caller's own inbox only: for an existing
  \<open>userId\<close> and any \<open>messageIds\<close>, the users are unchanged, the messages keep their
  positions, a message whose \<open>recipientId\<close> is not \<open>userId\<close> is unchanged, a message
  that changes is addressed to \<open>userId\<close> and only gets \<open>isRead = True\<close>, and the update
  filter implies \<open>recipientId = userId\<close> whatever ids are named.
\<close>

theorem mark_read_own_inbox_only:
  assumes "findOne (user_by_id userId) (users d) = Some u"
  shows "\<exists>n d'. mark_read userId messageIds d = (Inr n, d')
     \<and> users d' = users d
     \<and> length (messages d') = length (messages d)
     \<and> (\<forall>i < length (messages d).
           recipientId (messages d ! i) \<noteq> userId \<longrightarrow> messages d' ! i = messages d ! i)
     \<and> (\<forall>i < length (messages d).
           messages d' ! i = messages d ! i
           \<or> (recipientId (messages d ! i) = userId
              \<and> messages d' ! i = (messages d ! i)\<lparr>isRead := True\<rparr>))
     \<and> (\<forall>m. updateQuery userId messageIds m \<longrightarrow> recipientId m = userId)"
  using assms
  by (auto simp: mark_read_def updateMany_def updateQuery_def set_read_def)

theorem mark_read_own_inbox_only_witness:
  "findOne (user_by_id ''111111'')
     (users \<lparr>users = [new_user ''111111'' 0, new_user ''222222'' 0],
             messages = [\<lparr>mid = 1, senderId = ''222222'', recipientId = ''111111'', content = ''a'',
                          timestamp = 5, isRead = False, senderFingerprint = None\<rparr>,
                         \<lparr>mid = 2, senderId = ''111111'', recipientId = ''222222'', content = ''b'',
                          timestamp = 6, isRead = False, senderFingerprint = None\<rparr>]\<rparr>)
     = Some (new_user ''111111'' 0)
   \<and> snd (mark_read ''111111'' (Some [1, 2])
       \<lparr>users = [new_user ''111111'' 0, new_user ''222222'' 0],
        messages = [\<lparr>mid = 1, senderId = ''222222'', recipientId = ''111111'', content = ''a'',
                     timestamp = 5, isRead = False, senderFingerprint = None\<rparr>,
                    \<lparr>mid = 2, senderId = ''111111'', recipientId = ''222222'', content = ''b'',
                     timestamp = 6, isRead = False, senderFingerprint = None\<rparr>]\<rparr>)
     = \<lparr>users = [new_user ''111111'' 0, new_user ''222222'' 0],
        messages = [\<lparr>mid = 1, senderId = ''222222'', recipientId = ''111111'', content = ''a'',
                     timestamp = 5, isRead = True, senderFingerprint = None\<rparr>,
                    \<lparr>mid = 2, senderId = ''111111'', recipientId = ''222222'', content = ''b'',
                     timestamp = 6, isRead = False, senderFingerprint = None\<rparr>]\<rparr>"
proof -
  let ?m1 = "\<lparr>mid = 1, senderId = ''222222'', recipientId = ''111111'', content = ''a'',
              timestamp = 5, isRead = False, senderFingerprint = None\<rparr>"
  let ?m2 = "\<lparr>mid = 2, senderId = ''111111'', recipientId = ''222222'', content = ''b'',
              timestamp = 6, isRead = False, senderFingerprint = None\<rparr>"
  let ?d = "\<lparr>users = [new_user ''111111'' 0, new_user ''222222'' 0], messages = [?m1, ?m2]\<rparr>"
  have a: "findOne (user_by_id ''111111'') (users ?d) = Some (new_user ''111111'' 0)"
    by (simp add: findOne_def user_by_id_def new_user_def)
  from mark_read_own_inbox_only [OF a, of "Some [1, 2]"]
  obtain n d' where r: "mark_read ''111111'' (Some [1, 2]) ?d = (Inr n, d')"
    and f: "\<forall>i < length (messages ?d).
           recipientId (messages ?d ! i) \<noteq> ''111111'' \<longrightarrow> messages d' ! i = messages ?d ! i"
    by blast
  from f have "messages d' ! 1 = ?m2" by simp
  moreover have "snd (mark_read ''111111'' (Some [1, 2]) ?d) =
      \<lparr>users = [new_user ''111111'' 0, new_user ''222222'' 0],
       messages = [?m1\<lparr>isRead := True\<rparr>, ?m2]\<rparr>"
    using a by (simp add: mark_read_def updateMany_def updateQuery_def set_read_def)
  ultimately show ?thesis using a by simp
qed

text \<open>
  Claim C6, as stated, fails on the route: GET /api/check-id/:id stands behind
  \<open>validateUserId\<close>, which answers a malformed code with status 400
  (\<open>INVALID_ID_FORMAT\<close>) and never reaches \<open>isIdAvailable\<close>.
\<close>

theorem check_id_malformed_counterexample:
  "\<not> isValidId ''12a456''
   \<and> check_id_route ''12a456'' \<lparr>users = [], messages = []\<rparr>
       = (Inl INVALID_ID_FORMAT, \<lparr>users = [], messages = []\<rparr>)
   \<and> fst (check_id_route ''12a456'' \<lparr>users = [], messages = []\<rparr>)
       \<noteq> Inr \<lparr>available = False, cr_id = ''12a456''\<rparr>"
  by (simp add: check_id_route_def guarded_def validateUserId_def isValidId_def is_digit_def)

text \<open>
  Claim C6, amended. For a code that is not six ASCII digits, \<open>isIdAvailable\<close> answers
  \<open>False\<close> without failing, and the route rejects the request with
  \<open>INVALID_ID_FORMAT\<close>, the store unchanged. For a well-formed code the route succeeds
  and \<open>available\<close> is true exactly when no user holds the code.
\<close>

theorem check_id_availability:
  "(\<not> isValidId c \<longrightarrow>
      isIdAvailable c (users d) = False
      \<and> check_id_route c d = (Inl INVALID_ID_FORMAT, d))
   \<and> (isValidId c \<longrightarrow>
      isIdAvailable c (users d) = (c \<notin> set (map uid (users d)))
      \<and> check_id_route c d =
          (Inr \<lparr>available = (c \<notin> set (map uid (users d))), cr_id = c\<rparr>, d))"
proof -
  have v: "validateUserId c = isValidId c"
    by (auto simp: validateUserId_def isValidId_def)
  have "isValidId c \<Longrightarrow> isIdAvailable c (users d) = (c \<notin> set (map uid (users d)))"
    using findOne_None_iff [of c "users d"]
    by (auto simp: isIdAvailable_def split: option.splits)
  then show ?thesis
    by (auto simp: check_id_route_def guarded_def v check_id_def isIdAvailable_def)
qed

theorem check_id_availability_witness:
  "\<not> isValidId ''12a456''
   \<and> isIdAvailable ''12a456'' (users \<lparr>users = [new_user ''123456'' 0], messages = []\<rparr>) = False
   \<and> check_id_route ''12a456'' \<lparr>users = [new_user ''123456'' 0], messages = []\<rparr>
       = (Inl INVALID_ID_FORMAT, \<lparr>users = [new_user ''123456'' 0], messages = []\<rparr>)
   \<and> isValidId ''123456''
   \<and> check_id_route ''123456'' \<lparr>users = [new_user ''123456'' 0], messages = []\<rparr>
       = (Inr \<lparr>available = False, cr_id = ''123456''\<rparr>,
          \<lparr>users = [new_user ''123456'' 0], messages = []\<rparr>)
   \<and> isValidId ''654321''
   \<and> check_id_route ''654321'' \<lparr>users = [new_user ''123456'' 0], messages = []\<rparr>
       = (Inr \<lparr>available = True, cr_id = ''654321''\<rparr>,
          \<lparr>users = [new_user ''123456'' 0], messages = []\<rparr>)"
proof -
  let ?d = "\<lparr>users = [new_user ''123456'' 0], messages = []\<rparr>"
  have a: "\<not> isValidId ''12a456''" and b: "isValidId ''123456''" and c: "isValidId ''654321''"
    by (simp_all add: isValidId_def is_digit_def)
  show ?thesis
    using a b c check_id_availability [of "''12a456''" ?d]
      check_id_availability [of "''123456''" ?d] check_id_availability [of "''654321''" ?d]
    by (simp add: new_user_def)
qed

section \<open>The sweep\<close>

lemma deleteOne_distinct:
  "distinct (map uid us) \<Longrightarrow> deleteOne (user_by_id i) us = filter (\<lambda>u. uid u \<noteq> i) us"
proof (induction us)
  case Nil
  then show ?case by simp
next
  case (Cons a us)
  show ?case
  proof (cases "uid a = i")
    case True
    with Cons.prems have "\<forall>u \<in> set us. uid u \<noteq> i" by (auto simp: image_iff)
    then have "filter (\<lambda>u. uid u \<noteq> i) us = us" by (simp add: filter_id_conv)
    with True show ?thesis by (simp add: user_by_id_def)
  next
    case False
    with Cons show ?thesis by (simp add: user_by_id_def)
  qed
qed

lemma fold_purge_users:
  "distinct (map uid (users d)) \<Longrightarrow>
   users (fold purge_user ps d) = filter (\<lambda>u. uid u \<notin> set (map uid ps)) (users d)"
proof (induction ps arbitrary: d)
  case Nil
  then show ?case by simp
next
  case (Cons p ps)
  have u: "users (purge_user p d) = filter (\<lambda>u. uid u \<noteq> uid p) (users d)"
    using Cons.prems by (simp add: purge_user_def deleteOne_distinct)
  then have "distinct (map uid (users (purge_user p d)))"
    using Cons.prems by (simp add: distinct_map_filter)
  from Cons.IH [OF this] u show ?case
    by (auto intro: filter_cong)
qed

lemma fold_purge_messages:
  "messages (fold purge_user ps d) = filter (\<lambda>m. \<forall>u \<in> set ps. \<not> involves (uid u) m) (messages d)"
proof (induction ps arbitrary: d)
  case Nil
  then show ?case by simp
next
  case (Cons p ps)
  have "messages (purge_user p d) = filter (\<lambda>m. \<not> involves (uid p) m) (messages d)"
    by (simp add: purge_user_def deleteMany_def)
  with Cons.IH [of "purge_user p d"] show ?case
    by (auto intro: filter_cong)
qed

lemma uid_in_filter_iff:
  assumes "distinct (map uid us)" "u \<in> set us"
  shows "uid u \<in> set (map uid (filter q us)) \<longleftrightarrow> q u"
proof -
  from assms(1) have "inj_on uid (set us)" by (simp add: distinct_map)
  with assms(2) show ?thesis by (auto dest: inj_onD)
qed

lemma inactive_not_past_grace: "inactive a u \<Longrightarrow> \<not> past_grace b u"
  by (simp add: inactive_def past_grace_def)

text \<open>
  Claim C2. One pass of the sweep, on a store whose user ids are unique: it purges
  exactly the users marked for deletion whose \<open>markedAt\<close> is more than two minutes
  before \<open>t1\<close> (their rows and every message they sent or received), and then marks,
  with \<open>markedAt = t3\<close> and the reason \<open>inactivity\<close>, exactly the unmarked users whose
  \<open>lastActive\<close> is more than fifteen minutes before \<open>t2\<close>; every other user left is
  unchanged. No purged id is left in the store, no user marked in the pass is purged
  in it, and every user marked in the pass is still in the store.
\<close>

theorem sweep_purges_then_marks:
  assumes "distinct (map uid (users d))"
  shows "\<exists>purged marked d'. cleanupInactiveUsers t1 t2 t3 d = (purged, marked, d')
    \<and> purged = filter (past_grace (t1 - 120000)) (users d)
    \<and> marked = filter (inactive (t2 - 900000)) (users d)
    \<and> users d' = map (\<lambda>u. if inactive (t2 - 900000) u then mark_user t3 ''inactivity'' u else u)
                   (filter (\<lambda>u. \<not> past_grace (t1 - 120000) u) (users d))
    \<and> messages d' = filter (\<lambda>m. \<forall>u \<in> set purged. \<not> involves (uid u) m) (messages d)
    \<and> set (map uid purged) \<inter> set (map uid (users d')) = {}
    \<and> set (map uid marked) \<inter> set (map uid purged) = {}
    \<and> set (map uid marked) \<subseteq> set (map uid (users d'))"
proof -
  let ?pg = "past_grace (t1 - 120000)" and ?ia = "inactive (t2 - 900000)"
  let ?purged = "filter ?pg (users d)"
  let ?d1 = "fold purge_user ?purged d"
  let ?left = "filter (\<lambda>u. \<not> ?pg u) (users d)"
  let ?marked = "filter ?ia (users ?d1)"
  let ?mark = "\<lambda>u. if ?ia u then mark_user t3 ''inactivity'' u else u"
  let ?d2 = "if length ?marked > 0
             then ?d1\<lparr>users := updateMany (\<lambda>u. uid u \<in> set (map uid ?marked))
                                (mark_user t3 ''inactivity'') (users ?d1)\<rparr>
             else ?d1"
  have run: "cleanupInactiveUsers t1 t2 t3 d = (?purged, ?marked, ?d2)"
    by (simp add: cleanupInactiveUsers_def Let_def)
  have u1: "users ?d1 = ?left"
  proof -
    have "users ?d1 = filter (\<lambda>u. uid u \<notin> set (map uid ?purged)) (users d)"
      using assms by (rule fold_purge_users)
    also have "\<dots> = ?left"
      using uid_in_filter_iff [OF assms] by (intro filter_cong) auto
    finally show ?thesis .
  qed
  have dl: "distinct (map uid ?left)"
    using assms by (simp add: distinct_map_filter)
  have marked: "?marked = filter ?ia (users d)"
    unfolding u1 using inactive_not_past_grace by (auto intro: filter_cong)
  have upd: "updateMany (\<lambda>u. uid u \<in> set (map uid (filter ?ia ?left)))
               (mark_user t3 ''inactivity'') ?left = map ?mark ?left"
    unfolding updateMany_def
    using uid_in_filter_iff [OF dl] by (intro map_cong) auto
  have none: "map ?mark ?left = ?left" if "filter ?ia ?left = []"
  proof -
    from that have "\<forall>u \<in> set ?left. \<not> ?ia u" by (auto simp: filter_empty_conv)
    then show ?thesis by (intro map_idI) simp
  qed
  have u2: "users ?d2 = map ?mark ?left"
    using upd none by (auto simp: u1)
  have m2: "messages ?d2 = filter (\<lambda>m. \<forall>u \<in> set ?purged. \<not> involves (uid u) m) (messages d)"
    by (simp add: fold_purge_messages)
  have ids: "map uid (map ?mark ?left) = map uid ?left"
    by (simp add: mark_user_def)
  have disj1: "set (map uid ?purged) \<inter> set (map uid (users ?d2)) = {}"
  proof -
    have "set (map uid ?purged) \<inter> set (map uid ?left) = {}"
    proof (rule ccontr)
      assume "set (map uid ?purged) \<inter> set (map uid ?left) \<noteq> {}"
      then obtain a b where a: "a \<in> set (users d)" "?pg a"
        and b: "b \<in> set (users d)" "\<not> ?pg b" and e: "uid a = uid b"
        by auto
      from assms have "inj_on uid (set (users d))" by (simp add: distinct_map)
      with a(1) b(1) e have "a = b" by (auto dest: inj_onD)
      with a(2) b(2) show False by simp
    qed
    then show ?thesis unfolding u2 ids .
  qed
  have sub: "set (map uid ?marked) \<subseteq> set (map uid (users ?d2))"
  proof -
    have "set (map uid ?marked) \<subseteq> set (map uid ?left)"
      unfolding u1 by auto
    then show ?thesis unfolding u2 ids .
  qed
  have disj2: "set (map uid ?marked) \<inter> set (map uid ?purged) = {}"
    using disj1 sub by blast
  show ?thesis
    using run marked u2 m2 disj1 disj2 sub by (intro exI [of _ ?purged] exI [of _ ?marked] exI [of _ ?d2]) simp
qed


theorem sweep_purges_then_marks_witness:
  "distinct (map uid (users
     \<lparr>users = [\<lparr>uid = ''111111'', createdAt = 0, lastActive = 400000, markedForDeletion = True,
                 markedAt = Some 500000, deleteReason = Some ''manual''\<rparr>,
                \<lparr>uid = ''222222'', createdAt = 0, lastActive = 50000, markedForDeletion = False,
                 markedAt = None, deleteReason = None\<rparr>,
                \<lparr>uid = ''333333'', createdAt = 0, lastActive = 990000, markedForDeletion = False,
                 markedAt = None, deleteReason = None\<rparr>],
      messages = [\<lparr>mid = 1, senderId = ''111111'', recipientId = ''333333'', content = ''a'',
                   timestamp = 5, isRead = False, senderFingerprint = None\<rparr>,
                  \<lparr>mid = 2, senderId = ''333333'', recipientId = ''222222'', content = ''b'',
                   timestamp = 6, isRead = False, senderFingerprint = None\<rparr>]\<rparr>))
   \<and> cleanupInactiveUsers 1000000 1000000 1000000
     \<lparr>users = [\<lparr>uid = ''111111'', createdAt = 0, lastActive = 400000, markedForDeletion = True,
                 markedAt = Some 500000, deleteReason = Some ''manual''\<rparr>,
                \<lparr>uid = ''222222'', createdAt = 0, lastActive = 50000, markedForDeletion = False,
                 markedAt = None, deleteReason = None\<rparr>,
                \<lparr>uid = ''333333'', createdAt = 0, lastActive = 990000, markedForDeletion = False,
                 markedAt = None, deleteReason = None\<rparr>],
      messages = [\<lparr>mid = 1, senderId = ''111111'', recipientId = ''333333'', content = ''a'',
                   timestamp = 5, isRead = False, senderFingerprint = None\<rparr>,
                  \<lparr>mid = 2, senderId = ''333333'', recipientId = ''222222'', content = ''b'',
                   timestamp = 6, isRead = False, senderFingerprint = None\<rparr>]\<rparr>
     = ([\<lparr>uid = ''111111'', createdAt = 0, lastActive = 400000, markedForDeletion = True,
          markedAt = Some 500000, deleteReason = Some ''manual''\<rparr>],
        [\<lparr>uid = ''222222'', createdAt = 0, lastActive = 50000, markedForDeletion = False,
          markedAt = None, deleteReason = None\<rparr>],
        \<lparr>users = [\<lparr>uid = ''222222'', createdAt = 0, lastActive = 50000, markedForDeletion = True,
                    markedAt = Some 1000000, deleteReason = Some ''inactivity''\<rparr>,
                   \<lparr>uid = ''333333'', createdAt = 0, lastActive = 990000, markedForDeletion = False,
                    markedAt = None, deleteReason = None\<rparr>],
         messages = [\<lparr>mid = 2, senderId = ''333333'', recipientId = ''222222'', content = ''b'',
                      timestamp = 6, isRead = False, senderFingerprint = None\<rparr>]\<rparr>)"
proof -
  let ?a = "\<lparr>uid = ''111111'', createdAt = 0, lastActive = 400000, markedForDeletion = True,
             markedAt = Some 500000, deleteReason = Some ''manual''\<rparr>"
  let ?b = "\<lparr>uid = ''222222'', createdAt = 0, lastActive = 50000, markedForDeletion = False,
             markedAt = None, deleteReason = None\<rparr>"
  let ?c = "\<lparr>uid = ''333333'', createdAt = 0, lastActive = 990000, markedForDeletion = False,
             markedAt = None, deleteReason = None\<rparr>"
  let ?m1 = "\<lparr>mid = 1, senderId = ''111111'', recipientId = ''333333'', content = ''a'',
              timestamp = 5, isRead = False, senderFingerprint = None\<rparr>"
  let ?m2 = "\<lparr>mid = 2, senderId = ''333333'', recipientId = ''222222'', content = ''b'',
              timestamp = 6, isRead = False, senderFingerprint = None\<rparr>"
  let ?d = "\<lparr>users = [?a, ?b, ?c], messages = [?m1, ?m2]\<rparr>"
  have dist: "distinct (map uid (users ?d))" by simp
  from sweep_purges_then_marks [OF dist, of 1000000 1000000 1000000]
  obtain purged marked d' where
    run: "cleanupInactiveUsers 1000000 1000000 1000000 ?d = (purged, marked, d')"
    and p: "purged = filter (past_grace (1000000 - 120000)) (users ?d)"
    and m: "marked = filter (inactive (1000000 - 900000)) (users ?d)"
    and u: "users d' = map (\<lambda>u. if inactive (1000000 - 900000) u
                                 then mark_user 1000000 ''inactivity'' u else u)
                   (filter (\<lambda>u. \<not> past_grace (1000000 - 120000) u) (users ?d))"
    and ms: "messages d' = filter (\<lambda>m. \<forall>u \<in> set purged. \<not> involves (uid u) m) (messages ?d)"
    by blast
  have p': "purged = [?a]"
    unfolding p by (simp add: past_grace_def)
  have m': "marked = [?b]"
    unfolding m by (simp add: inactive_def)
  have u': "users d' = [?b\<lparr>markedForDeletion := True, markedAt := Some 1000000,
                            deleteReason := Some ''inactivity''\<rparr>, ?c]"
    unfolding u by (simp add: past_grace_def inactive_def mark_user_def)
  have ms': "messages d' = [?m2]"
    unfolding ms p' by (simp add: involves_def)
  have "d' = \<lparr>users = users d', messages = messages d'\<rparr>" by simp
  with u' ms' have "d' = \<lparr>users = [?b\<lparr>markedForDeletion := True, markedAt := Some 1000000,
                            deleteReason := Some ''inactivity''\<rparr>, ?c], messages = [?m2]\<rparr>"
    by simp
  with run p' m' dist show ?thesis by simp
qed

section \<open>Allocation\<close>

lemma is_digit_digit_char: "is_digit (digit_char n)"
proof -
  have "n mod 10 < length ''0123456789''" by simp
  then have "''0123456789'' ! (n mod 10) \<in> set ''0123456789''" by (rule nth_mem)
  then show ?thesis by (simp only: is_digit_def digit_char_def)
qed

lemma digits_all_digit: "list_all is_digit (digits n)"
proof (induction n rule: digits.induct)
  case (1 n)
  then show ?case
    by (subst digits.simps) (simp add: is_digit_digit_char)
qed

lemma length_digits: "n < 10 ^ Suc k \<Longrightarrow> k = 0 \<or> 10 ^ k \<le> n \<Longrightarrow> length (digits n) = Suc k"
proof (induction k arbitrary: n)
  case 0
  then show ?case by (subst digits.simps) simp
next
  case (Suc k)
  from Suc.prems have lo: "10 * 10 ^ k \<le> n" and hi: "n < 10 * 10 ^ Suc k" by simp_all
  from lo have ge: "10 \<le> n"
    by (metis le_trans mult.right_neutral mult_le_mono2 one_le_numeral one_le_power)
  from hi have a: "n div 10 < 10 ^ Suc k" by (simp add: less_mult_imp_div_less mult.commute)
  from lo have b: "10 ^ k \<le> n div 10" by (simp add: div_le_mono2 less_eq_div_iff_mult_less_eq mult.commute)
  from Suc.IH [OF a] b have "length (digits (n div 10)) = Suc k" by simp
  with ge show ?case by (subst digits.simps) simp
qed

lemma random_id_range:
  assumes "0 \<le> r" "r < 1"
  shows "100000 \<le> \<lfloor>100000 + r * 900000\<rfloor> \<and> \<lfloor>100000 + r * 900000\<rfloor> \<le> 999999"
proof -
  from assms have "100000 \<le> 100000 + r * 900000" "100000 + r * 900000 < 1000000" by simp_all
  then show ?thesis by (simp add: le_floor_iff floor_less_iff floor_le_iff)
    
qed

lemma toString_valid:
  assumes "100000 \<le> n" "n \<le> 999999"
  shows "isValidId (toString n)"
proof -
  from assms have "nat n < 10 ^ Suc 5" "10 ^ 5 \<le> nat n" by simp_all
  then have "length (digits (nat n)) = Suc 5" by (intro length_digits) simp_all
  with assms show ?thesis by (simp add: isValidId_def toString_def digits_all_digit)
qed

lemma generateUniqueId_from_cases:
  "(\<exists>k. i \<le> k \<and> k < N
        \<and> generateUniqueId_from rnd N us i = Inr (generateRandomId (rnd k))
        \<and> generateRandomId (rnd k) \<notin> set (map uid us)
        \<and> (\<forall>j. i \<le> j \<and> j < k \<longrightarrow> generateRandomId (rnd j) \<in> set (map uid us)))
   \<or> (generateUniqueId_from rnd N us i = Inl UnableToGenerate
        \<and> (\<forall>j. i \<le> j \<and> j < N \<longrightarrow> generateRandomId (rnd j) \<in> set (map uid us)))"
proof (induction rnd N us i rule: generateUniqueId_from.induct)
  case (1 rnd N us i)
  show ?case
  proof (cases "i < N")
    case False
    then show ?thesis by (subst generateUniqueId_from.simps) auto
  next
    case True
    show ?thesis
    proof (cases "findOne (user_by_id (generateRandomId (rnd i))) us")
      case None
      then have "generateUniqueId_from rnd N us i = Inr (generateRandomId (rnd i))"
        using True by (subst generateUniqueId_from.simps) simp
      moreover from None have "generateRandomId (rnd i) \<notin> set (map uid us)"
        by (rule iffD1 [OF findOne_None_iff])
      moreover have "\<forall>j. i \<le> j \<and> j < i \<longrightarrow> generateRandomId (rnd j) \<in> set (map uid us)"
        by auto
      ultimately show ?thesis
        using True by (intro disjI1 exI [of _ i]) simp
    next
      case (Some u)
      then have step: "generateUniqueId_from rnd N us i = generateUniqueId_from rnd N us (i + 1)"
        using True by (subst generateUniqueId_from.simps) simp
      from Some have here: "generateRandomId (rnd i) \<in> set (map uid us)"
        using findOne_None_iff [of "generateRandomId (rnd i)" us] by simp
      from "1.IH" [OF True refl Some] show ?thesis
      proof
        assume "\<exists>k. i + 1 \<le> k \<and> k < N
          \<and> generateUniqueId_from rnd N us (i + 1) = Inr (generateRandomId (rnd k))
          \<and> generateRandomId (rnd k) \<notin> set (map uid us)
          \<and> (\<forall>j. i + 1 \<le> j \<and> j < k \<longrightarrow> generateRandomId (rnd j) \<in> set (map uid us))"
        then obtain k where k: "i + 1 \<le> k" "k < N"
          "generateUniqueId_from rnd N us (i + 1) = Inr (generateRandomId (rnd k))"
          "generateRandomId (rnd k) \<notin> set (map uid us)"
          "\<forall>j. i + 1 \<le> j \<and> j < k \<longrightarrow> generateRandomId (rnd j) \<in> set (map uid us)"
          by blast
        have "generateRandomId (rnd j) \<in> set (map uid us)" if "i \<le> j" "j < k" for j
        proof (cases "j = i")
          case True
          with here show ?thesis by simp
        next
          case False
          with that have "i + 1 \<le> j" by simp
          with k(5) that show ?thesis by simp
        qed
        then have "\<forall>j. i \<le> j \<and> j < k \<longrightarrow> generateRandomId (rnd j) \<in> set (map uid us)"
          by simp
        with k step show ?thesis
          by (intro disjI1 exI [of _ k]) simp
      next
        assume a: "generateUniqueId_from rnd N us (i + 1) = Inl UnableToGenerate
          \<and> (\<forall>j. i + 1 \<le> j \<and> j < N \<longrightarrow> generateRandomId (rnd j) \<in> set (map uid us))"
        have "generateRandomId (rnd j) \<in> set (map uid us)" if "i \<le> j" "j < N" for j
        proof (cases "j = i")
          case True
          with here show ?thesis by simp
        next
          case False
          with that have "i + 1 \<le> j" by simp
          with a that show ?thesis by simp
        qed
        then have "\<forall>j. i \<le> j \<and> j < N \<longrightarrow> generateRandomId (rnd j) \<in> set (map uid us)"
          by simp
        with a step show ?thesis by simp
      qed
    qed
  qed
qed

text \<open>
  Claim C5. Allocation, with every draw of \<open>Math.random()\<close> in \<open>[0, 1)\<close>: either some
  attempt \<open>k < 10\<close> is the first whose code no user holds, and \<open>generateUniqueId\<close>
  answers that code, the decimal form of a number of 100000..999999 and six digits
  long, and the route stores a new user with it; or all ten attempts hit codes that
  users hold, \<open>generateUniqueId\<close> throws, and the route answers
  \<open>SERVICE_UNAVAILABLE\<close> with the store unchanged. A code that a user holds is never
  answered.
\<close>

theorem allocate_fresh_or_exhausted:
  assumes "\<forall>i<10. 0 \<le> rnd i \<and> rnd i < 1"
  shows "(\<exists>k<10. \<exists>n.
            generateUniqueId rnd (users d) = Inr (toString n)
          \<and> toString n = generateRandomId (rnd k)
          \<and> 100000 \<le> n \<and> n \<le> 999999 \<and> isValidId (toString n)
          \<and> toString n \<notin> set (map uid (users d))
          \<and> (\<forall>j<k. generateRandomId (rnd j) \<in> set (map uid (users d)))
          \<and> generate_id_route rnd now d =
               (Inr (toString n), d\<lparr>users := users d @ [new_user (toString n) now]\<rparr>))
       \<or> (generateUniqueId rnd (users d) = Inl UnableToGenerate
          \<and> (\<forall>j<10. generateRandomId (rnd j) \<in> set (map uid (users d)))
          \<and> generate_id_route rnd now d = (Inl SERVICE_UNAVAILABLE, d))"
proof -
  from generateUniqueId_from_cases [of 0 10 rnd "users d"]
  show ?thesis
  proof
    assume "\<exists>k. 0 \<le> k \<and> k < 10
        \<and> generateUniqueId_from rnd 10 (users d) 0 = Inr (generateRandomId (rnd k))
        \<and> generateRandomId (rnd k) \<notin> set (map uid (users d))
        \<and> (\<forall>j. 0 \<le> j \<and> j < k \<longrightarrow> generateRandomId (rnd j) \<in> set (map uid (users d)))"
    then obtain k where k: "k < 10"
        "generateUniqueId rnd (users d) = Inr (generateRandomId (rnd k))"
        "generateRandomId (rnd k) \<notin> set (map uid (users d))"
        "\<forall>j<k. generateRandomId (rnd j) \<in> set (map uid (users d))"
      by (auto simp: generateUniqueId_def)
    define n where "n = \<lfloor>100000 + rnd k * 900000\<rfloor>"
    have s: "generateRandomId (rnd k) = toString n"
      by (simp add: generateRandomId_def n_def)
    from assms k(1) have "0 \<le> rnd k" "rnd k < 1" by auto
    then have r: "100000 \<le> n" "n \<le> 999999"
      unfolding n_def using random_id_range by blast+
    then have v: "isValidId (toString n)" by (rule toString_valid)
    from k(3) have "findOne (user_by_id (toString n)) (users d) = None"
      by (simp add: findOne_None_iff s)
    with v k(2) have "generate_id_route rnd now d =
        (Inr (toString n), d\<lparr>users := users d @ [new_user (toString n) now]\<rparr>)"
      by (simp add: generate_id_route_def s save_user_def new_user_def)
    with k(2,3,4) s r v have
      "generateUniqueId rnd (users d) = Inr (toString n)
          \<and> toString n = generateRandomId (rnd k)
          \<and> 100000 \<le> n \<and> n \<le> 999999 \<and> isValidId (toString n)
          \<and> toString n \<notin> set (map uid (users d))
          \<and> (\<forall>j<k. generateRandomId (rnd j) \<in> set (map uid (users d)))
          \<and> generate_id_route rnd now d =
               (Inr (toString n), d\<lparr>users := users d @ [new_user (toString n) now]\<rparr>)"
      by simp
    then have "\<exists>n. generateUniqueId rnd (users d) = Inr (toString n)
          \<and> toString n = generateRandomId (rnd k)
          \<and> 100000 \<le> n \<and> n \<le> 999999 \<and> isValidId (toString n)
          \<and> toString n \<notin> set (map uid (users d))
          \<and> (\<forall>j<k. generateRandomId (rnd j) \<in> set (map uid (users d)))
          \<and> generate_id_route rnd now d =
               (Inr (toString n), d\<lparr>users := users d @ [new_user (toString n) now]\<rparr>)"
      by (rule exI [of _ n])
    with k(1) show ?thesis
      by (intro disjI1 exI [of _ k] conjI)
  next
    assume a: "generateUniqueId_from rnd 10 (users d) 0 = Inl UnableToGenerate
        \<and> (\<forall>j. 0 \<le> j \<and> j < 10 \<longrightarrow> generateRandomId (rnd j) \<in> set (map uid (users d)))"
    then have "generate_id_route rnd now d = (Inl SERVICE_UNAVAILABLE, d)"
      by (simp add: generate_id_route_def generateUniqueId_def)
    with a show ?thesis by (simp add: generateUniqueId_def)
  qed
qed


theorem allocate_fresh_or_exhausted_witness:
  "0 \<le> (1 / 2 :: real) \<and> (1 / 2 :: real) < 1
   \<and> generate_id_route (\<lambda>i. 1 / 2) 7 \<lparr>users = [], messages = []\<rparr>
       = (Inr ''550000'', \<lparr>users = [new_user ''550000'' 7], messages = []\<rparr>)
   \<and> generate_id_route (\<lambda>i. 1 / 2) 7 \<lparr>users = [new_user ''550000'' 0], messages = []\<rparr>
       = (Inl SERVICE_UNAVAILABLE, \<lparr>users = [new_user ''550000'' 0], messages = []\<rparr>)"
proof -
  let ?rnd = "\<lambda>i::nat. 1 / 2 :: real"
  let ?e = "\<lparr>users = [], messages = []\<rparr>"
  let ?f = "\<lparr>users = [new_user ''550000'' 0], messages = []\<rparr>"
  have h: "\<forall>i<10. 0 \<le> ?rnd i \<and> ?rnd i < 1" by simp
  have g: "generateRandomId (1 / 2) = ''550000''"
    by (simp add: generateRandomId_def toString_def digits.simps digit_char_def)
  have a: "generate_id_route ?rnd 7 ?e = (Inr ''550000'', \<lparr>users = [new_user ''550000'' 7], messages = []\<rparr>)"
  proof -
    have "\<not> (\<forall>j<10. generateRandomId (?rnd j) \<in> set (map uid (users ?e)))"
      by (simp add: exI [of _ 0])
    with allocate_fresh_or_exhausted [OF h, of ?e 7] show ?thesis
      by (auto simp: g)
  qed
  have b: "generate_id_route ?rnd 7 ?f = (Inl SERVICE_UNAVAILABLE, ?f)"
    using allocate_fresh_or_exhausted [OF h, of ?f 7] by (auto simp: g new_user_def)
  from a b show ?thesis by simp
qed

section \<open>Receiving messages\<close>

lemma mid_strip [simp]: "mid (strip_fingerprint m) = mid m"
  by (simp add: strip_fingerprint_def)

lemma find_page_Inr:
  assumes "find_page q s l ms = Inr xs"
  shows "\<exists>ys. xs = map strip_fingerprint ys \<and> set ys \<subseteq> set (filter q ms)
            \<and> (distinct ms \<longrightarrow> distinct ys)
            \<and> ys = (if l = 0 then drop (nat s) (sort_key (\<lambda>m. - timestamp m) (filter q ms))
                     else take (nat \<bar>l\<bar>) (drop (nat s) (sort_key (\<lambda>m. - timestamp m) (filter q ms))))"
proof -
  let ?sorted = "sort_key (\<lambda>m. - timestamp m) (filter q ms)"
  let ?ys = "if l = 0 then drop (nat s) ?sorted else take (nat \<bar>l\<bar>) (drop (nat s) ?sorted)"
  from assms have xs: "xs = map strip_fingerprint ?ys"
    by (auto simp: find_page_def Let_def split: if_splits)
  have a: "set (drop (nat s) ?sorted) \<subseteq> set ?sorted"
    by (rule set_drop_subset)
  have b: "set (take (nat \<bar>l\<bar>) (drop (nat s) ?sorted)) \<subseteq> set (drop (nat s) ?sorted)"
    by (rule set_take_subset)
  from a b have "set ?ys \<subseteq> set ?sorted"
    by (cases "l = 0") auto
  then have sub: "set ?ys \<subseteq> set (filter q ms)" by simp
  have "distinct ms \<Longrightarrow> distinct ?ys" by simp
  with xs sub show ?thesis by blast
qed

lemma count_after_delete:
  assumes "distinct (map mid ms)" "set ys \<subseteq> set (filter q ms)" "distinct ys"
  shows "length (filter q (filter (\<lambda>m. mid m \<notin> set (map mid ys)) ms)) + length ys
         = length (filter q ms)"
proof -
  from assms(1) have inj: "inj_on mid (set ms)" and dm: "distinct ms"
    by (simp_all add: distinct_map)
  from assms(2) have sub: "set ys \<subseteq> set ms" by auto
  have "mid m \<notin> set (map mid ys) \<longleftrightarrow> m \<notin> set ys" if "m \<in> set ms" for m
    using inj sub that by (auto dest: inj_onD)
  then have "filter (\<lambda>m. mid m \<notin> set (map mid ys)) ms = filter (\<lambda>m. m \<notin> set ys) ms"
    by (intro filter_cong) auto
  then have e: "filter q (filter (\<lambda>m. mid m \<notin> set (map mid ys)) ms)
      = filter (\<lambda>m. m \<notin> set ys) (filter q ms)"
    by (simp add: conj_commute)
  let ?xs = "filter q ms"
  have dx: "distinct ?xs" using dm by simp
  have "set (filter (\<lambda>m. m \<in> set ys) ?xs) = set ys" using assms(2) by auto
  moreover have "distinct (filter (\<lambda>m. m \<in> set ys) ?xs)" using dx by (rule distinct_filter)
  ultimately have "length (filter (\<lambda>m. m \<in> set ys) ?xs) = length ys"
    using assms(3) by (metis distinct_card)
  moreover have "length (filter (\<lambda>m. m \<in> set ys) ?xs) + length (filter (\<lambda>m. \<not> m \<in> set ys) ?xs)
      = length ?xs"
    by (rule sum_length_filter_compl)
  ultimately show ?thesis unfolding e by simp
qed

lemma get_messages_success:
  assumes "get_messages now r qp ql un d = (Inr res, d')"
  shows "\<exists>ys. rr_messages res = map strip_fingerprint ys
     \<and> set ys \<subseteq> set (filter (inbox_query r un) (messages d))
     \<and> (distinct (messages d) \<longrightarrow> distinct ys)
     \<and> messages d' = filter (\<lambda>m. mid m \<notin> set (map mid ys)) (messages d)
     \<and> users d' = update_first (user_by_id r) (touch now) (users d)
     \<and> totalMessages (rr_pagination res)
         = int (countDocuments (inbox_query r un) (messages d)) - int (length ys)
     \<and> totalPages (rr_pagination res)
         = ceil_div (totalMessages (rr_pagination res)) (case ql of None \<Rightarrow> 20 | Some n \<Rightarrow> n)
     \<and> unreadCount res = (if un \<noteq> Some ''true''
                           then Some (countDocuments (unread_query r) (messages d')) else None)
     \<and> deletedCount res = length ys"
proof -
  let ?page = "case qp of None \<Rightarrow> 1 | Some n \<Rightarrow> n"
  let ?limit = "case ql of None \<Rightarrow> 20 | Some n \<Rightarrow> n"
  from assms obtain u where u: "findOne (user_by_id r) (users d) = Some u"
    by (cases "findOne (user_by_id r) (users d)") (auto simp: get_messages_def Let_def)
  from assms u obtain xs where
    xs: "find_page (inbox_query r un) ((?page - 1) * ?limit) ?limit (messages d) = Inr xs"
    by (cases "find_page (inbox_query r un) ((?page - 1) * ?limit) ?limit (messages d)")
       (auto simp: get_messages_def Let_def)
  from find_page_Inr [OF xs] obtain ys where
    ys: "xs = map strip_fingerprint ys" "set ys \<subseteq> set (filter (inbox_query r un) (messages d))"
      "distinct (messages d) \<longrightarrow> distinct ys"
    by blast
  have ids: "map mid xs = map mid ys" by (simp add: ys(1))
  have fu: "snd (findOneAndUpdate (user_by_id r) (touch now) (users d))
      = update_first (user_by_id r) (touch now) (users d)"
    using u by (simp add: findOneAndUpdate_def findOne_def)
  from assms u xs have res: "res = \<lparr>rr_messages = xs,
        rr_pagination =
          \<lparr>currentPage = ?page,
           totalPages = ceil_div (int (countDocuments (inbox_query r un) (messages d)) - int (length xs)) ?limit,
           totalMessages = int (countDocuments (inbox_query r un) (messages d)) - int (length xs),
           hasMore = ((?page - 1) * ?limit + int (length xs)
                        < int (countDocuments (inbox_query r un) (messages d))),
           pg_limit = ?limit\<rparr>,
        unreadCount =
          (if un \<noteq> Some ''true''
           then Some (countDocuments (unread_query r)
                  (snd (deleteMany (\<lambda>m. mid m \<in> set (map mid xs)) (messages d)))) else None),
        deletedCount = length xs\<rparr>"
    and d': "d' = \<lparr>users = snd (findOneAndUpdate (user_by_id r) (touch now) (users d)),
                   messages = snd (deleteMany (\<lambda>m. mid m \<in> set (map mid xs)) (messages d))\<rparr>"
    by (simp_all add: get_messages_def Let_def)
  have "length xs = length ys" by (simp add: ys(1))
  with res d' ys fu ids show ?thesis
    by (intro exI [of _ ys]) (simp add: deleteMany_def)
qed


lemma get_messages_page1_succeeds:
  assumes "findOne (user_by_id r) (users d) = Some u"
  shows "\<exists>res d'. get_messages now r (Some 1) ql un d = (Inr res, d')"
  using assms by (simp add: get_messages_def find_page_def Let_def)

lemma user_still_there:
  assumes "findOne (user_by_id r) us = Some u"
  shows "findOne (user_by_id r) (update_first (user_by_id r) (touch now) us) = Some (touch now u)"
proof -
  from assms have f: "find (user_by_id r) us = Some u" by (simp add: findOne_def)
  then have "user_by_id r u" by (auto simp: find_Some_iff)
  then have "user_by_id r (touch now u)" by (simp add: user_by_id_def touch_def)
  with find_update_first [OF f] show ?thesis by (simp add: findOne_def)
qed

text \<open>
  Claim C1. Consume-on-read: for every existing recipient \<open>r\<close> and every limit \<open>L\<close>,
  a receive of page 1 succeeds and deletes, in the same call, every message it answers
  (the store left holds no message with an id of the answer, and \<open>deletedCount\<close> is
  the number answered); a second receive of page 1 right after it succeeds too, and
  its answer shares no message and no message id with the first.
\<close>

theorem receive_consumes_messages:
  assumes "findOne (user_by_id r) (users d) = Some u"
  shows "\<exists>res1 d1 res2 d2.
      get_messages t1 r (Some 1) L un1 d = (Inr res1, d1)
    \<and> messages d1 = filter (\<lambda>m. mid m \<notin> set (map mid (rr_messages res1))) (messages d)
    \<and> set (map mid (rr_messages res1)) \<inter> set (map mid (messages d1)) = {}
    \<and> deletedCount res1 = length (rr_messages res1)
    \<and> get_messages t2 r (Some 1) L un2 d1 = (Inr res2, d2)
    \<and> set (map mid (rr_messages res1)) \<inter> set (map mid (rr_messages res2)) = {}
    \<and> set (rr_messages res1) \<inter> set (rr_messages res2) = {}"
proof -
  from get_messages_page1_succeeds [OF assms] obtain res1 d1 where
    c1: "get_messages t1 r (Some 1) L un1 d = (Inr res1, d1)" by blast
  from get_messages_success [OF c1] obtain ys where
    ys: "rr_messages res1 = map strip_fingerprint ys"
      "messages d1 = filter (\<lambda>m. mid m \<notin> set (map mid ys)) (messages d)"
      "users d1 = update_first (user_by_id r) (touch t1) (users d)"
      "deletedCount res1 = length ys"
    by blast
  have ids1: "map mid (rr_messages res1) = map mid ys" by (simp add: ys(1))
  have m1: "messages d1 = filter (\<lambda>m. mid m \<notin> set (map mid (rr_messages res1))) (messages d)"
    by (simp only: ids1 ys(2))
  have gone: "set (map mid (rr_messages res1)) \<inter> set (map mid (messages d1)) = {}"
    unfolding m1 by (auto simp: image_iff)
  have "findOne (user_by_id r) (users d1) = Some (touch t1 u)"
    unfolding ys(3) using assms by (rule user_still_there)
  from get_messages_page1_succeeds [OF this] obtain res2 d2 where
    c2: "get_messages t2 r (Some 1) L un2 d1 = (Inr res2, d2)" by blast
  from get_messages_success [OF c2] obtain zs where
    zs: "rr_messages res2 = map strip_fingerprint zs"
      "set zs \<subseteq> set (filter (inbox_query r un2) (messages d1))"
    by blast
  have "set (map mid (rr_messages res2)) \<subseteq> set (map mid (messages d1))"
    using zs by auto
  with gone have disj: "set (map mid (rr_messages res1)) \<inter> set (map mid (rr_messages res2)) = {}"
    by blast
  then have disj': "set (rr_messages res1) \<inter> set (rr_messages res2) = {}"
    by auto
  have dc: "deletedCount res1 = length (rr_messages res1)"
    by (simp add: ys(1) ys(4))
  from c1 m1 gone dc c2 disj disj' show ?thesis by blast
qed

text \<open>
  Claim C3. The counts of a successful receive are those after its deletions, on a
  store whose message ids are unique: \<open>totalMessages\<close> is the number of messages
  matching the query in the store the call leaves, \<open>totalPages\<close> is
  \<open>Math.ceil\<close> of that number over the limit, \<open>unreadCount\<close> is absent when
  \<open>unread\<close> is \<open>"true"\<close> and otherwise counts the unread messages of the store left,
  and the number left is the number before less \<open>deletedCount\<close>.
\<close>

theorem receive_counts_after_deletion:
  assumes "distinct (map mid (messages d))"
    and "get_messages now r qp ql un d = (Inr res, d')"
  shows "totalMessages (rr_pagination res)
           = int (countDocuments (inbox_query r un) (messages d'))
    \<and> totalPages (rr_pagination res)
           = ceil_div (int (countDocuments (inbox_query r un) (messages d')))
               (case ql of None \<Rightarrow> 20 | Some n \<Rightarrow> n)
    \<and> unreadCount res
           = (if un = Some ''true'' then None
              else Some (countDocuments (unread_query r) (messages d')))
    \<and> int (countDocuments (inbox_query r un) (messages d'))
           = int (countDocuments (inbox_query r un) (messages d)) - int (deletedCount res)"
proof -
  from get_messages_success [OF assms(2)] obtain ys where
    ys: "set ys \<subseteq> set (filter (inbox_query r un) (messages d))"
      "distinct (messages d) \<longrightarrow> distinct ys"
      "messages d' = filter (\<lambda>m. mid m \<notin> set (map mid ys)) (messages d)"
      "totalMessages (rr_pagination res)
         = int (countDocuments (inbox_query r un) (messages d)) - int (length ys)"
      "totalPages (rr_pagination res)
         = ceil_div (totalMessages (rr_pagination res)) (case ql of None \<Rightarrow> 20 | Some n \<Rightarrow> n)"
      "unreadCount res = (if un \<noteq> Some ''true''
                           then Some (countDocuments (unread_query r) (messages d')) else None)"
      "deletedCount res = length ys"
    by blast
  from assms(1) have "distinct (messages d)" by (simp add: distinct_map)
  with ys(2) have dy: "distinct ys" by simp
  from count_after_delete [OF assms(1) ys(1) dy]
  have cnt: "countDocuments (inbox_query r un) (messages d') + length ys
      = countDocuments (inbox_query r un) (messages d)"
    by (simp add: countDocuments_def ys(3))
  then have t: "totalMessages (rr_pagination res)
      = int (countDocuments (inbox_query r un) (messages d'))"
    unfolding ys(4) by linarith
  from cnt have "int (countDocuments (inbox_query r un) (messages d'))
      = int (countDocuments (inbox_query r un) (messages d)) - int (deletedCount res)"
    unfolding ys(7) by linarith
  with t ys(5) ys(6) show ?thesis by simp
qed


theorem receive_consumes_messages_witness:
  "findOne (user_by_id ''111111'') (users
     \<lparr>users = [\<lparr>uid = ''111111'', createdAt = 0, lastActive = 0, markedForDeletion = False, markedAt = None, deleteReason = None\<rparr>,
        \<lparr>uid = ''222222'', createdAt = 0, lastActive = 0, markedForDeletion = False, markedAt = None, deleteReason = None\<rparr>],
      messages = [\<lparr>mid = 1, senderId = ''222222'', recipientId = ''111111'', content = ''hi'', timestamp = 10, isRead = False, senderFingerprint = None\<rparr>,
        \<lparr>mid = 2, senderId = ''222222'', recipientId = ''111111'', content = ''hi'', timestamp = 20, isRead = True, senderFingerprint = None\<rparr>,
        \<lparr>mid = 3, senderId = ''222222'', recipientId = ''111111'', content = ''hi'', timestamp = 30, isRead = False, senderFingerprint = None\<rparr>,
        \<lparr>mid = 4, senderId = ''111111'', recipientId = ''222222'', content = ''hi'', timestamp = 40, isRead = False, senderFingerprint = None\<rparr>]\<rparr>)
     = Some \<lparr>uid = ''111111'', createdAt = 0, lastActive = 0, markedForDeletion = False, markedAt = None, deleteReason = None\<rparr>
   \<and> (case get_messages 100 ''111111'' (Some 1) (Some 2) None
     \<lparr>users = [\<lparr>uid = ''111111'', createdAt = 0, lastActive = 0, markedForDeletion = False, markedAt = None, deleteReason = None\<rparr>,
        \<lparr>uid = ''222222'', createdAt = 0, lastActive = 0, markedForDeletion = False, markedAt = None, deleteReason = None\<rparr>],
      messages = [\<lparr>mid = 1, senderId = ''222222'', recipientId = ''111111'', content = ''hi'', timestamp = 10, isRead = False, senderFingerprint = None\<rparr>,
        \<lparr>mid = 2, senderId = ''222222'', recipientId = ''111111'', content = ''hi'', timestamp = 20, isRead = True, senderFingerprint = None\<rparr>,
        \<lparr>mid = 3, senderId = ''222222'', recipientId = ''111111'', content = ''hi'', timestamp = 30, isRead = False, senderFingerprint = None\<rparr>,
        \<lparr>mid = 4, senderId = ''111111'', recipientId = ''222222'', content = ''hi'', timestamp = 40, isRead = False, senderFingerprint = None\<rparr>]\<rparr> of
        (Inr res1, d1) \<Rightarrow>
          (case get_messages 200 ''111111'' (Some 1) (Some 2) None d1 of
             (Inr res2, d2) \<Rightarrow>
               map mid (rr_messages res1) = [3, 2] \<and> map mid (rr_messages res2) = [1]
               \<and> map mid (messages d1) = [1, 4] \<and> map mid (messages d2) = [4]
           | (Inl e, d2) \<Rightarrow> False)
      | (Inl e, d1) \<Rightarrow> False)"
proof -
  let ?d = "\<lparr>users = [\<lparr>uid = ''111111'', createdAt = 0, lastActive = 0, markedForDeletion = False, markedAt = None, deleteReason = None\<rparr>,
        \<lparr>uid = ''222222'', createdAt = 0, lastActive = 0, markedForDeletion = False, markedAt = None, deleteReason = None\<rparr>],
      messages = [\<lparr>mid = 1, senderId = ''222222'', recipientId = ''111111'', content = ''hi'', timestamp = 10, isRead = False, senderFingerprint = None\<rparr>,
        \<lparr>mid = 2, senderId = ''222222'', recipientId = ''111111'', content = ''hi'', timestamp = 20, isRead = True, senderFingerprint = None\<rparr>,
        \<lparr>mid = 3, senderId = ''222222'', recipientId = ''111111'', content = ''hi'', timestamp = 30, isRead = False, senderFingerprint = None\<rparr>,
        \<lparr>mid = 4, senderId = ''111111'', recipientId = ''222222'', content = ''hi'', timestamp = 40, isRead = False, senderFingerprint = None\<rparr>]\<rparr>"
  have a: "findOne (user_by_id ''111111'') (users ?d) = Some \<lparr>uid = ''111111'', createdAt = 0, lastActive = 0, markedForDeletion = False, markedAt = None, deleteReason = None\<rparr>"
    by (simp add: findOne_def user_by_id_def)
  show ?thesis
    using a receive_consumes_messages [OF a, of 100 "Some 2" None 200 None]
    by (simp add: get_messages_def find_page_def inbox_query_def unread_query_def findOne_def user_by_id_def findOneAndUpdate_def touch_def deleteMany_def countDocuments_def strip_fingerprint_def ceil_div_def Let_def)
qed

theorem receive_counts_after_deletion_witness:
  "distinct (map mid (messages
     \<lparr>users = [\<lparr>uid = ''111111'', createdAt = 0, lastActive = 0, markedForDeletion = False, markedAt = None, deleteReason = None\<rparr>,
        \<lparr>uid = ''222222'', createdAt = 0, lastActive = 0, markedForDeletion = False, markedAt = None, deleteReason = None\<rparr>],
      messages = [\<lparr>mid = 1, senderId = ''222222'', recipientId = ''111111'', content = ''hi'', timestamp = 10, isRead = False, senderFingerprint = None\<rparr>,
        \<lparr>mid = 2, senderId = ''222222'', recipientId = ''111111'', content = ''hi'', timestamp = 20, isRead = True, senderFingerprint = None\<rparr>,
        \<lparr>mid = 3, senderId = ''222222'', recipientId = ''111111'', content = ''hi'', timestamp = 30, isRead = False, senderFingerprint = None\<rparr>,
        \<lparr>mid = 4, senderId = ''111111'', recipientId = ''222222'', content = ''hi'', timestamp = 40, isRead = False, senderFingerprint = None\<rparr>]\<rparr>))
   \<and> get_messages 100 ''111111'' (Some 1) (Some 2) None
     \<lparr>users = [\<lparr>uid = ''111111'', createdAt = 0, lastActive = 0, markedForDeletion = False, markedAt = None, deleteReason = None\<rparr>,
        \<lparr>uid = ''222222'', createdAt = 0, lastActive = 0, markedForDeletion = False, markedAt = None, deleteReason = None\<rparr>],
      messages = [\<lparr>mid = 1, senderId = ''222222'', recipientId = ''111111'', content = ''hi'', timestamp = 10, isRead = False, senderFingerprint = None\<rparr>,
        \<lparr>mid = 2, senderId = ''222222'', recipientId = ''111111'', content = ''hi'', timestamp = 20, isRead = True, senderFingerprint = None\<rparr>,
        \<lparr>mid = 3, senderId = ''222222'', recipientId = ''111111'', content = ''hi'', timestamp = 30, isRead = False, senderFingerprint = None\<rparr>,
        \<lparr>mid = 4, senderId = ''111111'', recipientId = ''222222'', content = ''hi'', timestamp = 40, isRead = False, senderFingerprint = None\<rparr>]\<rparr>
     = (Inr \<lparr>rr_messages = [\<lparr>mid = 3, senderId = ''222222'', recipientId = ''111111'', content = ''hi'', timestamp = 30, isRead = False, senderFingerprint = None\<rparr>,
        \<lparr>mid = 2, senderId = ''222222'', recipientId = ''111111'', content = ''hi'', timestamp = 20, isRead = True, senderFingerprint = None\<rparr>],
      rr_pagination = \<lparr>currentPage = 1, totalPages = Num 1, totalMessages = 1, hasMore = True, pg_limit = 2\<rparr>,
      unreadCount = Some 1, deletedCount = 2\<rparr>,
     \<lparr>users = [\<lparr>uid = ''111111'', createdAt = 0, lastActive = 100, markedForDeletion = False, markedAt = None, deleteReason = None\<rparr>,
        \<lparr>uid = ''222222'', createdAt = 0, lastActive = 0, markedForDeletion = False, markedAt = None, deleteReason = None\<rparr>],
      messages = [\<lparr>mid = 1, senderId = ''222222'', recipientId = ''111111'', content = ''hi'', timestamp = 10, isRead = False, senderFingerprint = None\<rparr>,
        \<lparr>mid = 4, senderId = ''111111'', recipientId = ''222222'', content = ''hi'', timestamp = 40, isRead = False, senderFingerprint = None\<rparr>]\<rparr>)
   \<and> countDocuments (inbox_query ''111111'' None) (messages
     \<lparr>users = [\<lparr>uid = ''111111'', createdAt = 0, lastActive = 0, markedForDeletion = False, markedAt = None, deleteReason = None\<rparr>,
        \<lparr>uid = ''222222'', createdAt = 0, lastActive = 0, markedForDeletion = False, markedAt = None, deleteReason = None\<rparr>],
      messages = [\<lparr>mid = 1, senderId = ''222222'', recipientId = ''111111'', content = ''hi'', timestamp = 10, isRead = False, senderFingerprint = None\<rparr>,
        \<lparr>mid = 2, senderId = ''222222'', recipientId = ''111111'', content = ''hi'', timestamp = 20, isRead = True, senderFingerprint = None\<rparr>,
        \<lparr>mid = 3, senderId = ''222222'', recipientId = ''111111'', content = ''hi'', timestamp = 30, isRead = False, senderFingerprint = None\<rparr>,
        \<lparr>mid = 4, senderId = ''111111'', recipientId = ''222222'', content = ''hi'', timestamp = 40, isRead = False, senderFingerprint = None\<rparr>]\<rparr>) = 3
   \<and> countDocuments (inbox_query ''111111'' None) (messages
     \<lparr>users = [\<lparr>uid = ''111111'', createdAt = 0, lastActive = 100, markedForDeletion = False, markedAt = None, deleteReason = None\<rparr>,
        \<lparr>uid = ''222222'', createdAt = 0, lastActive = 0, markedForDeletion = False, markedAt = None, deleteReason = None\<rparr>],
      messages = [\<lparr>mid = 1, senderId = ''222222'', recipientId = ''111111'', content = ''hi'', timestamp = 10, isRead = False, senderFingerprint = None\<rparr>,
        \<lparr>mid = 4, senderId = ''111111'', recipientId = ''222222'', content = ''hi'', timestamp = 40, isRead = False, senderFingerprint = None\<rparr>]\<rparr>) = 1
   \<and> countDocuments (unread_query ''111111'') (messages
     \<lparr>users = [\<lparr>uid = ''111111'', createdAt = 0, lastActive = 100, markedForDeletion = False, markedAt = None, deleteReason = None\<rparr>,
        \<lparr>uid = ''222222'', createdAt = 0, lastActive = 0, markedForDeletion = False, markedAt = None, deleteReason = None\<rparr>],
      messages = [\<lparr>mid = 1, senderId = ''222222'', recipientId = ''111111'', content = ''hi'', timestamp = 10, isRead = False, senderFingerprint = None\<rparr>,
        \<lparr>mid = 4, senderId = ''111111'', recipientId = ''222222'', content = ''hi'', timestamp = 40, isRead = False, senderFingerprint = None\<rparr>]\<rparr>) = 1"
proof -
  let ?d = "\<lparr>users = [\<lparr>uid = ''111111'', createdAt = 0, lastActive = 0, markedForDeletion = False, markedAt = None, deleteReason = None\<rparr>,
        \<lparr>uid = ''222222'', createdAt = 0, lastActive = 0, markedForDeletion = False, markedAt = None, deleteReason = None\<rparr>],
      messages = [\<lparr>mid = 1, senderId = ''222222'', recipientId = ''111111'', content = ''hi'', timestamp = 10, isRead = False, senderFingerprint = None\<rparr>,
        \<lparr>mid = 2, senderId = ''222222'', recipientId = ''111111'', content = ''hi'', timestamp = 20, isRead = True, senderFingerprint = None\<rparr>,
        \<lparr>mid = 3, senderId = ''222222'', recipientId = ''111111'', content = ''hi'', timestamp = 30, isRead = False, senderFingerprint = None\<rparr>,
        \<lparr>mid = 4, senderId = ''111111'', recipientId = ''222222'', content = ''hi'', timestamp = 40, isRead = False, senderFingerprint = None\<rparr>]\<rparr>"
  let ?d1 = "\<lparr>users = [\<lparr>uid = ''111111'', createdAt = 0, lastActive = 100, markedForDeletion = False, markedAt = None, deleteReason = None\<rparr>,
        \<lparr>uid = ''222222'', createdAt = 0, lastActive = 0, markedForDeletion = False, markedAt = None, deleteReason = None\<rparr>],
      messages = [\<lparr>mid = 1, senderId = ''222222'', recipientId = ''111111'', content = ''hi'', timestamp = 10, isRead = False, senderFingerprint = None\<rparr>,
        \<lparr>mid = 4, senderId = ''111111'', recipientId = ''222222'', content = ''hi'', timestamp = 40, isRead = False, senderFingerprint = None\<rparr>]\<rparr>"
  let ?r1 = "\<lparr>rr_messages = [\<lparr>mid = 3, senderId = ''222222'', recipientId = ''111111'', content = ''hi'', timestamp = 30, isRead = False, senderFingerprint = None\<rparr>,
        \<lparr>mid = 2, senderId = ''222222'', recipientId = ''111111'', content = ''hi'', timestamp = 20, isRead = True, senderFingerprint = None\<rparr>],
      rr_pagination = \<lparr>currentPage = 1, totalPages = Num 1, totalMessages = 1, hasMore = True, pg_limit = 2\<rparr>,
      unreadCount = Some 1, deletedCount = 2\<rparr>"
  have a: "distinct (map mid (messages ?d))" by simp
  have h: "\<lceil>(1::real) / 2\<rceil> = 1" by (rule ceiling_unique) simp_all
  have b: "get_messages 100 ''111111'' (Some 1) (Some 2) None ?d = (Inr ?r1, ?d1)"
    by (simp add: h get_messages_def find_page_def inbox_query_def unread_query_def findOne_def user_by_id_def findOneAndUpdate_def touch_def deleteMany_def countDocuments_def strip_fingerprint_def ceil_div_def Let_def)
  have c: "countDocuments (inbox_query ''111111'' None) (messages ?d) = 3"
    by (simp add: countDocuments_def inbox_query_def)
  from receive_counts_after_deletion [OF a b]
  have "int (countDocuments (inbox_query ''111111'' None) (messages ?d1)) = 1"
    and "Some (countDocuments (unread_query ''111111'') (messages ?d1)) = Some 1"
    by simp_all
  with a b c show ?thesis by simp
qed

text \<open>
  The page a successful receive answers: the recipient's messages (the unread ones when
  asked), newest first, \<open>(page - 1) * limit\<close> of them skipped, then \<open>limit\<close> of them
  kept, with the limit as the request gives it.
\<close>

lemma get_messages_page:
  assumes "get_messages now r qp ql un d = (Inr res, d')"
  shows "rr_messages res =
     map strip_fingerprint
       (let page = (case qp of None \<Rightarrow> 1 | Some n \<Rightarrow> n);
            limit = (case ql of None \<Rightarrow> 20 | Some n \<Rightarrow> n);
            sorted = sort_key (\<lambda>m. - timestamp m) (filter (inbox_query r un) (messages d));
            skipped = drop (nat ((page - 1) * limit)) sorted
        in if limit = 0 then skipped else take (nat \<bar>limit\<bar>) skipped)"
  using assms
  by (auto simp: get_messages_def find_page_def Let_def split: option.splits if_splits)

text \<open>
  Claim C8, at a request the handler does not clamp: with 51 messages in the inbox,
  page 1 and limit 100, the route answers (and deletes) all 51, while
  \<open>parsePagination\<close>, the helper that clamps, would have made the limit 50. The
  handler computes the skip and the limit from \<open>parseInt\<close> alone.
\<close>

theorem receive_limit_not_clamped:
  "(case get_messages_route 100 ''111111'' (Some 1) (Some 100) None
      \<lparr>users = [new_user ''111111'' 0],
       messages = map (\<lambda>i. \<lparr>mid = i, senderId = ''222222'', recipientId = ''111111'',
                              content = ''hi'', timestamp = int i, isRead = False,
                              senderFingerprint = None\<rparr>) [0..<51]\<rparr> of
      (Inr res, d') \<Rightarrow> length (rr_messages res) = 51 \<and> deletedCount res = 51
    | (Inl e, d') \<Rightarrow> False)
   \<and> parsePagination (Some 1) (Some 100) = (1, 50, 0)"
proof -
  let ?g = "\<lambda>i. \<lparr>mid = i, senderId = ''222222'', recipientId = ''111111'',
                  content = ''hi'', timestamp = int i, isRead = False,
                  senderFingerprint = None\<rparr>"
  have f: "filter (inbox_query ''111111'' None) (map ?g [0..<51]) = map ?g [0..<51]"
    by (simp add: filter_id_conv inbox_query_def)
  have v: "validateUserId ''111111''"
    by (simp add: validateUserId_def is_digit_def)
  have p: "parsePagination (Some 1) (Some 100) = (1, 50, 0)"
    by (simp add: parsePagination_def)
  show ?thesis
    by (simp add: p get_messages_route_def guarded_def v get_messages_def find_page_def f
        findOne_def user_by_id_def new_user_def Let_def)
qed

theorem receive_limit_not_clamped_witness:
  "\<exists>res d'. get_messages_route 100 ''111111'' (Some 1) (Some 100) None
      \<lparr>users = [new_user ''111111'' 0],
       messages = map (\<lambda>i. \<lparr>mid = i, senderId = ''222222'', recipientId = ''111111'',
                              content = ''hi'', timestamp = int i, isRead = False,
                              senderFingerprint = None\<rparr>) [0..<51]\<rparr> = (Inr res, d')
     \<and> length (rr_messages res) = 51"
  using receive_limit_not_clamped by (auto split: prod.splits sum.splits)

section \<open>Sending messages\<close>

lemma dropWhile_front:
  "dropWhile p (rev (dropWhile p (rev (dropWhile p s)))) = rev (dropWhile p (rev (dropWhile p s)))"
proof -
  let ?x = "dropWhile p s"
  let ?y = "rev (dropWhile p (rev ?x))"
  have split: "?x = ?y @ rev (takeWhile p (rev ?x))"
    by (metis rev_append rev_rev_ident takeWhile_dropWhile_id)
  show ?thesis
  proof (cases "?y")
    case Nil
    show ?thesis unfolding Nil by simp
  next
    case (Cons a as)
    with split have "?x = a # (as @ rev (takeWhile p (rev ?x)))" by simp
    then have "hd ?x = a" "?x \<noteq> []" by (metis list.sel(1), metis list.distinct(1))
    with hd_dropWhile [of p s] have "\<not> p a" by auto
    then show ?thesis unfolding Cons by simp
  qed
qed

lemma js_trim_idem: "js_trim (js_trim s) = js_trim s"
  by (simp add: js_trim_def dropWhile_front)

text \<open>
  What a successful send stores: the content of the request with its outer white space
  trimmed, and nothing else done to it.
\<close>

lemma send_persists_trimmed:
  assumes "send_message now qs qr qc qf fp d = (Inr resp, d')"
  shows "\<exists>c m. qc = Some c \<and> messages d' = messages d @ [m] \<and> content m = js_trim c
           \<and> mid m = sr_id resp"
proof -
  from assms obtain s r c where q: "qs = Some s" "qr = Some r" "qc = Some c"
    by (cases qs; cases qr; cases qc) (auto simp: send_message_def)
  from assms q obtain v where v: "validateMessage (Some c) = Inr v"
    by (cases "validateMessage (Some c)") (auto simp: send_message_def split: if_splits)
  then have vt: "v = js_trim c"
    by (auto simp: validateMessage_def Let_def split: if_splits)
  from assms q v show ?thesis
    by (auto simp: send_message_def Let_def vt js_trim_idem split: if_splits)
qed

text \<open>
  Claim C7, at a content with an inner run of two spaces: the send succeeds and the
  stored content still has both spaces, while the normal form (\<open>sanitizeMessage\<close>,
  which collapses every run of white space) has one.
\<close>

theorem send_keeps_inner_whitespace:
  "send_message 100 (Some ''111111'') (Some ''222222'') (Some ''a  b'') None ''fp''
      \<lparr>users = [new_user ''111111'' 0, new_user ''222222'' 0], messages = []\<rparr>
     = (Inr \<lparr>sr_id = 1, sr_timestamp = 100\<rparr>,
        \<lparr>users = [new_user ''111111'' 0, (new_user ''222222'' 0)\<lparr>lastActive := 100\<rparr>],
         messages = [\<lparr>mid = 1, senderId = ''111111'', recipientId = ''222222'',
                      content = ''a  b'', timestamp = 100, isRead = False,
                      senderFingerprint = Some ''fp''\<rparr>]\<rparr>)
   \<and> sanitizeMessage ''a  b'' = ''a b''"
proof -
  have t: "js_trim ''a  b'' = ''a  b''"
    by (simp add: js_trim_def is_space_def)
  have v: "validateMessage (Some ''a  b'') = Inr ''a  b''"
    by (simp add: validateMessage_def t Let_def is_line_terminator_def url_here_def)
  have s: "sanitizeMessage ''a  b'' = ''a b''"
    by (simp add: sanitizeMessage_def t is_space_def)
  have i: "isValidId ''111111''" "isValidId ''222222''"
    by (simp_all add: isValidId_def is_digit_def)
  show ?thesis
    by (simp add: s send_message_def v t i findOne_def user_by_id_def new_user_def
        findOneAndUpdate_def touch_def fresh_id_def or_default_def)
qed

theorem send_keeps_inner_whitespace_witness:
  "map content (messages (snd (send_message 100 (Some ''111111'') (Some ''222222'')
      (Some ''a  b'') None ''fp''
      \<lparr>users = [new_user ''111111'' 0, new_user ''222222'' 0], messages = []\<rparr>)))
     = [''a  b'']"
  using send_keeps_inner_whitespace by simp

end
